theory Spec2Isabelle
  imports
    Complex_Main
    "HOL-Library.Char_ord"
    "HOL-Library.List_Lexorder"
    "HOL-Library.Sublist"
    "HOL-Library.AList"
    "HOL-Library.Multiset"
begin

section \<open>Strings and numbers of the source language\<close>

text \<open>
  A TypeScript string is modelled as a \<^typ>\<open>string\<close> of ASCII characters. The comparison
  \<^verbatim>\<open>a > b\<close> on strings is the lexicographic order on character codes, which is the order
  \<^theory_text>\<open>List_Lexorder\<close> and \<^theory_text>\<open>Char_ord\<close> give to \<^typ>\<open>string\<close>; on Slack
  timestamps of equal width (\<^verbatim>\<open>"1234567890.123456"\<close>) it is the chronological order.
  A value that is tested for truthiness (\<^verbatim>\<open>if (s)\<close>, \<^verbatim>\<open>a || b\<close>) is falsy when it is
  \<^verbatim>\<open>undefined\<close> or the empty string.
\<close>

definition truthy :: "string option \<Rightarrow> bool" where
  "truthy v = (case v of None \<Rightarrow> False | Some s \<Rightarrow> s \<noteq> [])"

definition lower_char :: "char \<Rightarrow> char" where
  "lower_char c =
     (case map_of (zip ''ABCDEFGHIJKLMNOPQRSTUVWXYZ'' ''abcdefghijklmnopqrstuvwxyz'') c of
        None \<Rightarrow> c | Some l \<Rightarrow> l)"

text \<open>\<^verbatim>\<open>String.prototype.toLowerCase\<close>, and SQLite's \<^verbatim>\<open>LOWER\<close>, on ASCII text.\<close>

definition toLowerCase :: "string \<Rightarrow> string" where
  "toLowerCase s = map lower_char s"

text \<open>\<^verbatim>\<open>String.prototype.includes\<close>: the argument occurs as a contiguous substring.\<close>

definition js_includes :: "string \<Rightarrow> string \<Rightarrow> bool" where
  "js_includes s t = sublist t s"

definition is_space :: "char \<Rightarrow> bool" where
  "is_space c = (c \<in> set [CHR '' '', CHR 0x09, CHR 0x0A, CHR 0x0B, CHR 0x0C, CHR 0x0D])"

text \<open>\<^verbatim>\<open>String.prototype.trim\<close>: white space is removed from both ends.\<close>

definition trim :: "string \<Rightarrow> string" where
  "trim s = rev (dropWhile is_space (rev (dropWhile is_space s)))"

definition digit_of :: "char \<Rightarrow> nat option" where
  "digit_of c = map_of (zip ''0123456789'' [0, 1, 2, 3, 4, 5, 6, 7, 8, 9]) c"

fun leading_digits :: "nat \<Rightarrow> string \<Rightarrow> nat" where
  "leading_digits acc [] = acc"
| "leading_digits acc (c # cs) =
     (case digit_of c of None \<Rightarrow> acc | Some d \<Rightarrow> leading_digits (10 * acc + d) cs)"

text \<open>
  \<^verbatim>\<open>slackTsToUnix(ts) = Math.floor(Number.parseFloat(ts))\<close> (types.ts). A Slack timestamp
  is \<^verbatim>\<open>seconds.microseconds\<close> in decimal digits; on such a string the floor of the parsed
  number is the number its leading digits denote.
\<close>

definition slackTsToUnix :: "string \<Rightarrow> int" where
  "slackTsToUnix ts = int (leading_digits 0 ts)"

text \<open>
  \<^verbatim>\<open>Array.prototype.slice(0, n)\<close>: a negative end counts from the end of the array.
\<close>

definition slice0 :: "'a list \<Rightarrow> int \<Rightarrow> 'a list" where
  "slice0 xs n = (if n < 0 then take (length xs - nat (- n)) xs else take (nat n) xs)"

text \<open>
  The SQL clause \<^verbatim>\<open>LIMIT n\<close>: SQLite puts no bound on the rows when \<^verbatim>\<open>n\<close> is negative.
\<close>

definition sql_limit :: "int \<Rightarrow> 'a list \<Rightarrow> 'a list" where
  "sql_limit n xs = (if n < 0 then xs else take (nat n) xs)"

text \<open>
  \<^verbatim>\<open>ORDER BY date ASC\<close> and \<^verbatim>\<open>ORDER BY date DESC\<close> over rows listed by rowid. SQL
  leaves the order of rows with equal keys open; the model takes the order of an index
  scan (forward, respectively backward, over key and rowid).
\<close>

definition order_by_asc :: "('a \<Rightarrow> int) \<Rightarrow> 'a list \<Rightarrow> 'a list" where
  "order_by_asc k xs = sort_key k xs"

definition order_by_desc :: "('a \<Rightarrow> int) \<Rightarrow> 'a list \<Rightarrow> 'a list" where
  "order_by_desc k xs = rev (sort_key k xs)"

section \<open>Data model (types.ts)\<close>

record SlackUser =
  u_id :: string
  u_name :: string
  u_realName :: string
  u_displayName :: string

record SlackConversation =
  c_id :: string
  c_name :: string
  c_isChannel :: bool
  c_isPrivate :: bool
  c_isIm :: bool
  c_isMpim :: bool
  c_userId :: "string option"

record SlackMessage =
  s_ts :: string
  s_user :: string
  s_text :: string
  s_channelId :: string
  s_threadTs :: "string option"
  s_replyCount :: nat

record IndexedMessage =
  msg_id :: nat
  msg_text :: string
  sender :: string
  chatName :: string
  chatId :: string
  date :: int
  isFromMe :: bool
  threadTs :: "string option"

record SearchResult =
  message :: IndexedMessage
  score :: real
  matchedTerms :: "string list"

record SearchResultWithContext =
  result :: SearchResult
  before :: "IndexedMessage list"
  after :: "IndexedMessage list"

text \<open>
  \<^verbatim>\<open>SearchOptions\<close>. The date floor \<^verbatim>\<open>after\<close> is a \<^verbatim>\<open>Date\<close>, modelled by its
  \<^verbatim>\<open>getTime()\<close>, the milliseconds since the epoch.
\<close>

record SearchOptions =
  o_query :: "string option"
  o_from :: "string option"
  o_after :: "int option"
  o_limit :: int
  o_context :: int

text \<open>\<^verbatim>\<open>IndexStats\<close>; dates are milliseconds since the epoch, the cursors a
  \<^verbatim>\<open>Record<string, string>\<close> from channel id to the last indexed ts.\<close>

record IndexStats =
  totalMessages :: nat
  totalChats :: nat
  totalContacts :: nat
  indexedAt :: int
  oldestMessage :: int
  newestMessage :: int
  workspaceId :: string
  workspaceName :: string
  conversationCursors :: "(string \<times> string) list"

section \<open>The structured store (table \<^verbatim>\<open>messages\<close>)\<close>

text \<open>
  One row of
  \<^verbatim>\<open>CREATE TABLE messages (id INTEGER PRIMARY KEY AUTOINCREMENT, ts TEXT UNIQUE NOT NULL,
  text, sender, chat_name, chat_id, date INTEGER, is_from_me INTEGER, thread_ts TEXT)\<close>.
\<close>

record row =
  row_id :: nat
  ts :: string
  row_text :: string
  row_sender :: string
  chat_name :: string
  chat_id :: string
  row_date :: int
  is_from_me :: int
  thread_ts :: "string option"

text \<open>The table: its rows in rowid order and the AUTOINCREMENT counter.\<close>

record db =
  rows :: "row list"
  seq :: nat

definition empty_db :: db where
  "empty_db = \<lparr>rows = [], seq = 0\<rparr>"

record RawSlackMessage =
  r_ts :: string
  r_user :: string
  r_text :: string
  r_channelId :: string
  r_channelName :: string
  r_threadTs :: "string option"

text \<open>\<^verbatim>\<open>new Map(users.map((u) => [u.id, u]))\<close>: a later entry replaces an earlier one.\<close>

definition userMap_of :: "SlackUser list \<Rightarrow> (string \<rightharpoonup> SlackUser)" where
  "userMap_of users = map_of (rev (map (\<lambda>u. (u_id u, u)) users))"

text \<open>
  \<^verbatim>\<open>user?.displayName || user?.realName || user?.name || userId\<close>
\<close>

definition resolveUserName :: "(string \<rightharpoonup> SlackUser) \<Rightarrow> string \<Rightarrow> string" where
  "resolveUserName userMap userId =
     (case userMap userId of
        None \<Rightarrow> userId
      | Some user \<Rightarrow>
          if u_displayName user \<noteq> [] then u_displayName user
          else if u_realName user \<noteq> [] then u_realName user
          else if u_name user \<noteq> [] then u_name user
          else userId)"

text \<open>\<^verbatim>\<open>msg.threadTs || null\<close>\<close>

definition or_null :: "string option \<Rightarrow> string option" where
  "or_null v = (if truthy v then v else None)"

text \<open>
  \<^verbatim>\<open>INSERT OR IGNORE INTO messages (ts, text, sender, chat_name, chat_id, date, is_from_me,
  thread_ts) VALUES (?, ?, ?, ?, ?, ?, ?, ?)\<close>: a row whose \<^verbatim>\<open>ts\<close> is already in the
  table violates \<^verbatim>\<open>UNIQUE\<close> and is dropped without an error. SQLite draws the next
  rowid before it checks the constraint, so the AUTOINCREMENT counter advances on a
  dropped row as well.
\<close>

definition insertMessages ::
  "db \<Rightarrow> string \<Rightarrow> string \<Rightarrow> string \<Rightarrow> string \<Rightarrow> string \<Rightarrow> int \<Rightarrow> int \<Rightarrow> string option \<Rightarrow> db" where
  "insertMessages d ts' text' sender' chat_name' chat_id' date' is_from_me' thread_ts' =
     (if ts' \<in> set (map ts (rows d)) then d\<lparr>seq := seq d + 1\<rparr>
      else \<lparr>rows = rows d @
               [\<lparr>row_id = seq d + 1, ts = ts', row_text = text', row_sender = sender',
                 chat_name = chat_name', chat_id = chat_id', row_date = date',
                 is_from_me = is_from_me', thread_ts = thread_ts'\<rparr>],
            seq = seq d + 1\<rparr>)"

text \<open>The body of the \<^verbatim>\<open>insertBatch\<close> transaction for one message.\<close>

definition insertOne :: "(string \<rightharpoonup> SlackUser) \<Rightarrow> string \<Rightarrow> db \<Rightarrow> RawSlackMessage \<Rightarrow> db" where
  "insertOne userMap authUserId d msg =
     insertMessages d (r_ts msg) (r_text msg) (resolveUserName userMap (r_user msg))
       (r_channelName msg) (r_channelId msg) (slackTsToUnix (r_ts msg))
       (if r_user msg = authUserId then 1 else 0) (or_null (r_threadTs msg))"

text \<open>\<^verbatim>\<open>insertBatch = indexDb.transaction((batch) => { for (const msg of batch) ... })\<close>\<close>

definition insertBatch ::
  "(string \<rightharpoonup> SlackUser) \<Rightarrow> string \<Rightarrow> db \<Rightarrow> RawSlackMessage list \<Rightarrow> db" where
  "insertBatch userMap authUserId d batch = foldl (insertOne userMap authUserId) d batch"

text \<open>A sequence of batch insertions, one transaction after the other.\<close>

definition insertBatches ::
  "(string \<rightharpoonup> SlackUser) \<Rightarrow> string \<Rightarrow> db \<Rightarrow> RawSlackMessage list list \<Rightarrow> db" where
  "insertBatches userMap authUserId d batches = foldl (insertBatch userMap authUserId) d batches"

section \<open>The ingestion pipeline (indexer.ts)\<close>

subsection \<open>The remote client and the local files\<close>

text \<open>
  The answers of the remote client \<^verbatim>\<open>SlackApi\<close> during one sync. A call that throws
  is \<^const>\<open>None\<close>. \<^verbatim>\<open>getConversationHistory(channelId, oldest)\<close> and
  \<^verbatim>\<open>getThreadReplies(channelId, threadTs)\<close> are functions of their arguments.
\<close>

record AuthInfo =
  userId :: string
  teamId :: string
  teamName :: string

record SlackApi =
  testAuth :: "AuthInfo option"
  listUsers :: "SlackUser list option"
  listConversations :: "SlackConversation list option"
  getConversationHistory :: "string \<Rightarrow> string option \<Rightarrow> SlackMessage list option"
  getThreadReplies :: "string \<Rightarrow> string \<Rightarrow> SlackMessage list option"

text \<open>
  The files under the configuration directory: the default workspace's token
  (\<^verbatim>\<open>getDefaultWorkspace\<close>), \<^verbatim>\<open>index.db\<close>, \<^verbatim>\<open>fuzzy.json\<close>, \<^verbatim>\<open>stats.json\<close>
  and \<^verbatim>\<open>users.json\<close>; \<^const>\<open>None\<close> is a file that does not exist. MiniSearch is a
  library outside the repository: its serialised index is modelled by the list of the
  documents it stores. The FTS5 table \<^verbatim>\<open>messages_fts\<close> is written by both syncs and read
  by no query, and is left out.
\<close>

record files =
  workspace :: "string option"
  indexDb :: "db option"
  fuzzyIndex :: "IndexedMessage list option"
  statsFile :: "IndexStats option"
  usersCache :: "(string \<rightharpoonup> SlackUser) option"

datatype error =
    NotConfigured
  | AuthenticationFailed
  | ListUsersFailed
  | ListConversationsFailed
  | IndexNotFound
  | FuzzyIndexNotFound
  | SqliteError
  | DuplicateID

subsection \<open>Helpers shared by both syncs\<close>

definition resolveConversationName ::
  "(string \<rightharpoonup> SlackUser) \<Rightarrow> SlackConversation \<Rightarrow> string" where
  "resolveConversationName userMap conv =
     (case c_userId conv of
        None \<Rightarrow> c_name conv
      | Some u \<Rightarrow> if c_isIm conv \<and> u \<noteq> [] then resolveUserName userMap u else c_name conv)"

text \<open>The object literal pushed onto \<^verbatim>\<open>allMessages\<close> / \<^verbatim>\<open>newMessages\<close>.\<close>

definition toRaw :: "string \<Rightarrow> SlackMessage \<Rightarrow> RawSlackMessage" where
  "toRaw channelName msg =
     \<lparr>r_ts = s_ts msg, r_user = s_user msg, r_text = s_text msg,
      r_channelId = s_channelId msg, r_channelName = channelName,
      r_threadTs = s_threadTs msg\<rparr>"

text \<open>
  \<^verbatim>\<open>if (!cursors[k] || v > cursors[k]) cursors[k] = v\<close> on a
  \<^verbatim>\<open>Record<string, string>\<close>, kept as an association list in insertion order.
\<close>

definition advance :: "(string \<times> string) list \<Rightarrow> string \<Rightarrow> string \<Rightarrow> (string \<times> string) list" where
  "advance cursors k v =
     (case map_of cursors k of
        None \<Rightarrow> AList.update k v cursors
      | Some c \<Rightarrow> if c = [] \<or> c < v then AList.update k v cursors else cursors)"

text \<open>The row shape read back from the table, as an \<^verbatim>\<open>IndexedMessage\<close>
  (\<^verbatim>\<open>rowToMessage\<close> in searcher.ts; both syncs build the same object inline).\<close>

definition rowToMessage :: "row \<Rightarrow> IndexedMessage" where
  "rowToMessage r =
     \<lparr>msg_id = row_id r, msg_text = row_text r, sender = row_sender r,
      chatName = chat_name r, chatId = chat_id r, date = row_date r,
      isFromMe = (is_from_me r = 1), threadTs = or_null (thread_ts r)\<rparr>"

text \<open>
  \<^verbatim>\<open>miniSearch.addAll(docs)\<close>: MiniSearch adds the documents in order and raises
  \<^verbatim>\<open>duplicate ID\<close> on a document whose id it already holds.
\<close>

fun addAll :: "IndexedMessage list \<Rightarrow> IndexedMessage list \<Rightarrow> error + IndexedMessage list" where
  "addAll docs [] = Inr docs"
| "addAll docs (m # ms) =
     (if msg_id m \<in> set (map msg_id docs) then Inl DuplicateID else addAll (docs @ [m]) ms)"

subsection \<open>Full sync: \<^verbatim>\<open>buildIndex\<close>\<close>

text \<open>
  The body of the \<^verbatim>\<open>try\<close> block for one conversation: every message of the history is
  pushed, followed by its thread replies when \<^verbatim>\<open>replyCount > 0\<close>. A failing
  \<^verbatim>\<open>getThreadReplies\<close> leaves the block with what was pushed so far.
\<close>

fun collectMessages ::
  "SlackApi \<Rightarrow> string \<Rightarrow> string \<Rightarrow> SlackMessage list \<Rightarrow> RawSlackMessage list \<Rightarrow> RawSlackMessage list" where
  "collectMessages api convId channelName [] allMessages = allMessages"
| "collectMessages api convId channelName (msg # msgs) allMessages =
     (let pushed = allMessages @ [toRaw channelName msg] in
      if s_replyCount msg > 0 then
        (case getThreadReplies api convId (s_ts msg) of
           None \<Rightarrow> pushed
         | Some replies \<Rightarrow>
             collectMessages api convId channelName msgs (pushed @ map (toRaw channelName) replies))
      else collectMessages api convId channelName msgs pushed)"

text \<open>The loop over the conversations; a conversation whose history cannot be fetched
  is skipped.\<close>

fun fetchAll ::
  "SlackApi \<Rightarrow> (string \<rightharpoonup> SlackUser) \<Rightarrow> SlackConversation list \<Rightarrow> RawSlackMessage list \<Rightarrow> RawSlackMessage list" where
  "fetchAll api userMap [] allMessages = allMessages"
| "fetchAll api userMap (conv # convs) allMessages =
     (case getConversationHistory api (c_id conv) None of
        None \<Rightarrow> fetchAll api userMap convs allMessages
      | Some messages \<Rightarrow>
          fetchAll api userMap convs
            (collectMessages api (c_id conv) (resolveConversationName userMap conv) messages allMessages))"

text \<open>
  The loop \<^verbatim>\<open>for (const msg of allMessages)\<close> keeps four things: the oldest date
  (\<^verbatim>\<open>Infinity\<close> at the start, here \<^const>\<open>None\<close>), the newest date (0 at the start), the
  cursor of each conversation, and the batch of at most \<^verbatim>\<open>BATCH_SIZE = 1000\<close> messages that
  is inserted when it is full; the rest is inserted after the loop. Each is one fold here.
\<close>

definition oldestDate_of :: "RawSlackMessage list \<Rightarrow> int option" where
  "oldestDate_of msgs =
     foldl (\<lambda>oldest msg.
        case oldest of
          None \<Rightarrow> Some (slackTsToUnix (r_ts msg))
        | Some d \<Rightarrow> if slackTsToUnix (r_ts msg) < d then Some (slackTsToUnix (r_ts msg)) else Some d)
       None msgs"

definition newestDate_of :: "RawSlackMessage list \<Rightarrow> int" where
  "newestDate_of msgs =
     foldl (\<lambda>newest msg. if slackTsToUnix (r_ts msg) > newest then slackTsToUnix (r_ts msg) else newest)
       0 msgs"

definition trackCursors :: "RawSlackMessage list \<Rightarrow> (string \<times> string) list" where
  "trackCursors msgs = foldl (\<lambda>cursors msg. advance cursors (r_channelId msg) (r_ts msg)) [] msgs"

definition BATCH_SIZE :: nat where
  "BATCH_SIZE = 1000"

fun insertLoop ::
  "(string \<rightharpoonup> SlackUser) \<Rightarrow> string \<Rightarrow> db \<Rightarrow> RawSlackMessage list \<Rightarrow> RawSlackMessage list \<Rightarrow> db" where
  "insertLoop userMap authUserId d batch [] =
     (if length batch > 0 then insertBatch userMap authUserId d batch else d)"
| "insertLoop userMap authUserId d batch (msg # msgs) =
     (if length (batch @ [msg]) \<ge> BATCH_SIZE
      then insertLoop userMap authUserId (insertBatch userMap authUserId d (batch @ [msg])) [] msgs
      else insertLoop userMap authUserId d (batch @ [msg]) msgs)"

text \<open>\<^verbatim>\<open>new Set(xs).size\<close>\<close>

definition distinct_count :: "'a list \<Rightarrow> nat" where
  "distinct_count xs = length (remdups xs)"

text \<open>
  \<^verbatim>\<open>buildIndex\<close>, at the time \<^verbatim>\<open>now\<close> (\<^verbatim>\<open>new Date()\<close>, in milliseconds). The result
  is the value returned or the error thrown, with the files as they are left.
\<close>

definition buildIndex :: "int \<Rightarrow> SlackApi \<Rightarrow> files \<Rightarrow> (error + IndexStats) \<times> files" where
  "buildIndex now api f =
     (case workspace f of
        None \<Rightarrow> (Inl NotConfigured, f)
      | Some token \<Rightarrow>
     (case testAuth api of
        None \<Rightarrow> (Inl AuthenticationFailed, f)
      | Some authInfo \<Rightarrow>
     (case listUsers api of
        None \<Rightarrow> (Inl ListUsersFailed, f)
      | Some users \<Rightarrow>
     (let userMap = userMap_of users;
          f1 = f\<lparr>usersCache := Some userMap\<rparr>
      in
     (case listConversations api of
        None \<Rightarrow> (Inl ListConversationsFailed, f1)
      | Some conversations \<Rightarrow>
     (let allMessages = fetchAll api userMap conversations [];
          indexDb' = insertLoop userMap (userId authInfo) empty_db [] allMessages;
          oldestDate = oldestDate_of allMessages;
          newestDate = newestDate_of allMessages;
          conversationCursors' = trackCursors allMessages;
          indexedMessages = map rowToMessage (order_by_asc row_date (rows indexDb'));
          f2 = f1\<lparr>indexDb := Some indexDb'\<rparr>
      in
     (case addAll [] indexedMessages of
        Inl e \<Rightarrow> (Inl e, f2)
      | Inr miniSearch \<Rightarrow>
     (let stats =
            \<lparr>totalMessages = length indexedMessages,
             totalChats = distinct_count (map chatId indexedMessages),
             totalContacts = distinct_count (map sender indexedMessages),
             indexedAt = now,
             oldestMessage = (case oldestDate of None \<Rightarrow> now | Some d \<Rightarrow> d * 1000),
             newestMessage = (if newestDate = 0 then now else newestDate * 1000),
             workspaceId = teamId authInfo,
             workspaceName = teamName authInfo,
             conversationCursors = conversationCursors'\<rparr>
      in (Inr stats, f2\<lparr>fuzzyIndex := Some miniSearch, statsFile := Some stats\<rparr>)))))))))"

subsection \<open>Incremental sync: \<^verbatim>\<open>updateIndex\<close>\<close>

text \<open>
  The body of the \<^verbatim>\<open>try\<close> block for one conversation. The cursor of the conversation
  moves after the message and its replies were pushed; a failing \<^verbatim>\<open>getThreadReplies\<close>
  leaves the block before that.
\<close>

fun updateMessages ::
  "SlackApi \<Rightarrow> string \<Rightarrow> string \<Rightarrow> SlackMessage list \<Rightarrow>
   RawSlackMessage list \<times> (string \<times> string) list \<Rightarrow> RawSlackMessage list \<times> (string \<times> string) list" where
  "updateMessages api convId channelName [] st = st"
| "updateMessages api convId channelName (msg # msgs) (newMessages, updatedCursors) =
     (let pushed = newMessages @ [toRaw channelName msg] in
      if s_replyCount msg > 0 then
        (case getThreadReplies api convId (s_ts msg) of
           None \<Rightarrow> (pushed, updatedCursors)
         | Some replies \<Rightarrow>
             updateMessages api convId channelName msgs
               (pushed @ map (toRaw channelName) replies, advance updatedCursors convId (s_ts msg)))
      else updateMessages api convId channelName msgs
             (pushed, advance updatedCursors convId (s_ts msg)))"

text \<open>The loop over the conversations: the history of each is fetched from its stored
  cursor, \<^verbatim>\<open>existingStats.conversationCursors[conv.id]\<close>.\<close>

fun updateAll ::
  "SlackApi \<Rightarrow> (string \<rightharpoonup> SlackUser) \<Rightarrow> (string \<times> string) list \<Rightarrow> SlackConversation list \<Rightarrow>
   RawSlackMessage list \<times> (string \<times> string) list \<Rightarrow> RawSlackMessage list \<times> (string \<times> string) list" where
  "updateAll api userMap existingCursors [] st = st"
| "updateAll api userMap existingCursors (conv # convs) st =
     (case getConversationHistory api (c_id conv) (map_of existingCursors (c_id conv)) of
        None \<Rightarrow> updateAll api userMap existingCursors convs st
      | Some messages \<Rightarrow>
          updateAll api userMap existingCursors convs
            (updateMessages api (c_id conv) (resolveConversationName userMap conv) messages st))"

text \<open>The users cache: an absent file is the empty map.\<close>

definition loadUsersCache :: "files \<Rightarrow> (string \<rightharpoonup> SlackUser)" where
  "loadUsersCache f = (case usersCache f of None \<Rightarrow> Map.empty | Some m \<Rightarrow> m)"

text \<open>
  \<^verbatim>\<open>if (row.date > newestDate) newestDate = row.date\<close> over the selected rows, with
  \<^verbatim>\<open>newestDate\<close> starting at \<^verbatim>\<open>existingStats.newestMessage.getTime() / 1000\<close>; the
  model keeps the value in milliseconds, as \<^verbatim>\<open>new Date(newestDate * 1000)\<close> stores it.
\<close>

definition newestAfter :: "int \<Rightarrow> row list \<Rightarrow> int" where
  "newestAfter newestMs newRows =
     foldl (\<lambda>newest r. if row_date r * 1000 > newest then row_date r * 1000 else newest) newestMs newRows"

text \<open>
  \<^verbatim>\<open>updateIndex\<close>, at the time \<^verbatim>\<open>now\<close>. \<^verbatim>\<open>Inr None\<close> is the return value \<^verbatim>\<open>null\<close>
  (no stored cursors). Opening a missing \<^verbatim>\<open>index.db\<close> makes the \<^verbatim>\<open>INSERT\<close>
  statement fail (no table), reading a missing \<^verbatim>\<open>fuzzy.json\<close> fails as well.
\<close>

definition updateIndex :: "int \<Rightarrow> SlackApi \<Rightarrow> files \<Rightarrow> (error + IndexStats option) \<times> files" where
  "updateIndex now api f =
     (case statsFile f of
        None \<Rightarrow> (Inr None, f)
      | Some existingStats \<Rightarrow>
     (if conversationCursors existingStats = [] then (Inr None, f) else
     (case workspace f of
        None \<Rightarrow> (Inl NotConfigured, f)
      | Some token \<Rightarrow>
     (case testAuth api of
        None \<Rightarrow> (Inl AuthenticationFailed, f)
      | Some authInfo \<Rightarrow>
     (let userMap = loadUsersCache f in
     (case listConversations api of
        None \<Rightarrow> (Inl ListConversationsFailed, f)
      | Some conversations \<Rightarrow>
     (let fetched = updateAll api userMap (conversationCursors existingStats) conversations
                      ([], conversationCursors existingStats);
          newMessages = fst fetched;
          updatedCursors = snd fetched
      in
      if length newMessages = 0 then
        (let updatedStats = existingStats\<lparr>indexedAt := now, conversationCursors := updatedCursors\<rparr>
         in (Inr (Some updatedStats), f\<lparr>statsFile := Some updatedStats\<rparr>))
      else
     (case indexDb f of
        None \<Rightarrow> (Inl SqliteError, f)
      | Some indexDb0 \<Rightarrow>
     (case fuzzyIndex f of
        None \<Rightarrow> (Inl FuzzyIndexNotFound, f)
      | Some miniSearch0 \<Rightarrow>
     (let indexDb' = insertBatch userMap (userId authInfo) indexDb0 newMessages;
          tsList = map r_ts newMessages;
          newRows = filter (\<lambda>r. ts r \<in> set tsList) (rows indexDb');
          newestDate = newestAfter (newestMessage existingStats) newRows;
          newIndexedMessages = map rowToMessage newRows;
          f1 = f\<lparr>indexDb := Some indexDb'\<rparr>
      in
     (case addAll miniSearch0 newIndexedMessages of
        Inl e \<Rightarrow> (Inl e, f1)
      | Inr miniSearch \<Rightarrow>
     (let updatedStats =
            \<lparr>totalMessages = totalMessages existingStats + length newIndexedMessages,
             totalChats = totalChats existingStats,
             totalContacts = totalContacts existingStats,
             indexedAt = now,
             oldestMessage = oldestMessage existingStats,
             newestMessage = newestDate,
             workspaceId = workspaceId existingStats,
             workspaceName = workspaceName existingStats,
             conversationCursors = updatedCursors\<rparr>
      in (Inr (Some updatedStats),
          f1\<lparr>fuzzyIndex := Some miniSearch, statsFile := Some updatedStats\<rparr>)))))))))))))"

section \<open>The search engine (searcher.ts)\<close>

text \<open>The module-level caches \<^verbatim>\<open>cachedDb\<close> and \<^verbatim>\<open>cachedMiniSearch\<close>.\<close>

record searcher =
  cachedDb :: "db option"
  cachedMiniSearch :: "IndexedMessage list option"

definition indexExists :: "files \<Rightarrow> bool" where
  "indexExists f = (indexDb f \<noteq> None \<and> fuzzyIndex f \<noteq> None)"

text \<open>\<^verbatim>\<open>ensureIndex\<close> answers \<^verbatim>\<open>'none'\<close> on both of its paths.\<close>

definition ensureIndex :: "files \<Rightarrow> string" where
  "ensureIndex f = (if \<not> indexExists f then ''none'' else ''none'')"

definition clearCaches :: "searcher \<Rightarrow> searcher" where
  "clearCaches s = s\<lparr>cachedDb := None, cachedMiniSearch := None\<rparr>"

definition getDb :: "files \<Rightarrow> searcher \<Rightarrow> (error + db) \<times> searcher" where
  "getDb f s =
     (case cachedDb s of
        Some d \<Rightarrow> (Inr d, s)
      | None \<Rightarrow>
          (case indexDb f of
             None \<Rightarrow> (Inl IndexNotFound, s)
           | Some d \<Rightarrow> (Inr d, s\<lparr>cachedDb := Some d\<rparr>)))"

definition getMiniSearch :: "files \<Rightarrow> searcher \<Rightarrow> (error + IndexedMessage list) \<times> searcher" where
  "getMiniSearch f s =
     (case cachedMiniSearch s of
        Some m \<Rightarrow> (Inr m, s)
      | None \<Rightarrow>
          (case fuzzyIndex f of
             None \<Rightarrow> (Inl FuzzyIndexNotFound, s)
           | Some m \<Rightarrow> (Inr m, s\<lparr>cachedMiniSearch := Some m\<rparr>)))"

text \<open>
  The SQL operator \<^verbatim>\<open>text LIKE pattern\<close> of SQLite: in the pattern \<^verbatim>\<open>%\<close> stands for
  any run of characters, \<^verbatim>\<open>_\<close> for any one character, and every other character for
  itself in either case. The first argument is the pattern.
\<close>

fun sql_like :: "string \<Rightarrow> string \<Rightarrow> bool" where
  "sql_like [] [] = True"
| "sql_like [] (c # cs) = False"
| "sql_like (p # ps) [] = (p = CHR ''%'' \<and> sql_like ps [])"
| "sql_like (p # ps) (c # cs) =
     (if p = CHR ''%'' then sql_like ps (c # cs) \<or> sql_like (p # ps) cs
      else (p = CHR ''_'' \<or> lower_char p = lower_char c) \<and> sql_like ps cs)"

text \<open>\<^verbatim>\<open>after ? Math.floor(after.getTime() / 1000) : ...\<close>\<close>

definition floorSeconds :: "int \<Rightarrow> int" where
  "floorSeconds ms = ms div 1000"

text \<open>
  \<^verbatim>\<open>searchBySender\<close>:
  \<^verbatim>\<open>SELECT ... FROM messages WHERE LOWER(sender) LIKE ? AND is_from_me = 0 AND date >= ?
  ORDER BY date DESC LIMIT ?\<close> with the pattern \<^verbatim>\<open>`%${fromLower}%`\<close>.
\<close>

definition searchBySender :: "db \<Rightarrow> string \<Rightarrow> int option \<Rightarrow> int \<Rightarrow> SearchResult list" where
  "searchBySender d from' after' limit =
     (let fromLower = toLowerCase from';
          afterTimestamp = (case after' of None \<Rightarrow> 0 | Some ms \<Rightarrow> floorSeconds ms);
          pattern = ''%'' @ fromLower @ ''%'';
          selected =
            sql_limit limit
              (order_by_desc row_date
                 (filter (\<lambda>r. sql_like pattern (toLowerCase (row_sender r)) \<and>
                               is_from_me r = 0 \<and> row_date r \<ge> afterTimestamp)
                    (rows d)))
      in map (\<lambda>r. \<lparr>message = rowToMessage r, score = 1.0, matchedTerms = []\<rparr>) selected)"

text \<open>
  The fuzzy index answers a text query with its ranked hits (fuzziness 0.2, prefix
  matching, field boosts). MiniSearch is outside the repository, so its ranking is a
  parameter \<^verbatim>\<open>engine\<close> of the model: the hits for a query over the stored documents, each
  with the stored fields. The \<^verbatim>\<open>filter\<close> option drops the hits that fail it.
\<close>

type_synonym engine = "IndexedMessage list \<Rightarrow> string \<Rightarrow> SearchResult list"

definition senderFilter :: "string \<Rightarrow> SearchResult \<Rightarrow> bool" where
  "senderFilter fromLower r =
     (\<not> isFromMe (message r) \<and> js_includes (toLowerCase (sender (message r))) fromLower)"

definition searchByText ::
  "engine \<Rightarrow> files \<Rightarrow> searcher \<Rightarrow> string \<Rightarrow> string option \<Rightarrow> int option \<Rightarrow> int \<Rightarrow>
   (error + SearchResult list) \<times> searcher" where
  "searchByText eng f s query from' after' limit =
     (case getMiniSearch f s of
        (Inl e, s') \<Rightarrow> (Inl e, s')
      | (Inr miniSearch, s') \<Rightarrow>
     (let fromLower = map_option toLowerCase from';
          afterTimestamp = map_option floorSeconds after';
          hasFilters = (truthy from' \<or> after' \<noteq> None);
          searchLimit = (if hasFilters then limit * 20 else limit);
          fuzzyResults =
            (case fromLower of
               None \<Rightarrow> eng miniSearch query
             | Some fl \<Rightarrow>
                 if fl \<noteq> [] then filter (senderFilter fl) (eng miniSearch query)
                 else eng miniSearch query)
      in
      if length fuzzyResults = 0 then (Inr [], s')
      else
        (let results = slice0 fuzzyResults searchLimit;
             results' =
               (case afterTimestamp of
                  None \<Rightarrow> results
                | Some t \<Rightarrow>
                    if t \<noteq> 0 then filter (\<lambda>r. date (message r) \<ge> t) results else results)
         in (Inr (slice0 results' limit), s'))))"

text \<open>
  The two context queries of \<^verbatim>\<open>search\<close>:
  \<^verbatim>\<open>WHERE chat_id = ? AND date < ? ORDER BY date DESC LIMIT ?\<close>, reversed, and
  \<^verbatim>\<open>WHERE chat_id = ? AND date > ? ORDER BY date ASC LIMIT ?\<close>.
\<close>

definition contextBefore :: "db \<Rightarrow> string \<Rightarrow> int \<Rightarrow> int \<Rightarrow> IndexedMessage list" where
  "contextBefore d chat when context =
     map rowToMessage
       (rev (sql_limit context
          (order_by_desc row_date (filter (\<lambda>r. chat_id r = chat \<and> row_date r < when) (rows d)))))"

definition contextAfter :: "db \<Rightarrow> string \<Rightarrow> int \<Rightarrow> int \<Rightarrow> IndexedMessage list" where
  "contextAfter d chat when context =
     map rowToMessage
       (sql_limit context
          (order_by_asc row_date (filter (\<lambda>r. chat_id r = chat \<and> row_date r > when) (rows d))))"

definition withContext :: "db \<Rightarrow> int \<Rightarrow> SearchResult \<Rightarrow> SearchResultWithContext" where
  "withContext d context r =
     \<lparr>result = r,
      before = contextBefore d (chatId (message r)) (date (message r)) context,
      after = contextAfter d (chatId (message r)) (date (message r)) context\<rparr>"

text \<open>\<^verbatim>\<open>const hasTextQuery = query && query !== '*' && query.trim() !== ''\<close>\<close>

definition hasTextQuery :: "string option \<Rightarrow> bool" where
  "hasTextQuery query =
     (case query of None \<Rightarrow> False | Some q \<Rightarrow> q \<noteq> [] \<and> q \<noteq> ''*'' \<and> trim q \<noteq> [])"

text \<open>\<^verbatim>\<open>search(options)\<close>: the answer or the error thrown, and the caches as they are
  left.\<close>

definition search ::
  "engine \<Rightarrow> files \<Rightarrow> searcher \<Rightarrow> SearchOptions \<Rightarrow>
   (error + SearchResultWithContext list) \<times> searcher" where
  "search eng f s0 options =
     (let s = (if ensureIndex f \<noteq> ''none'' then clearCaches s0 else s0) in
      case getDb f s of
        (Inl e, s1) \<Rightarrow> (Inl e, s1)
      | (Inr d, s1) \<Rightarrow>
          if truthy (o_from options) \<and> \<not> hasTextQuery (o_query options) then
            (case o_from options of
               None \<Rightarrow> (Inr [], s1)
             | Some from' \<Rightarrow>
                 (Inr (map (withContext d (o_context options))
                         (searchBySender d from' (o_after options) (o_limit options))), s1))
          else if hasTextQuery (o_query options) then
            (case o_query options of
               None \<Rightarrow> (Inr [], s1)
             | Some query \<Rightarrow>
                 (case searchByText eng f s1 query (o_from options) (o_after options)
                         (o_limit options) of
                    (Inl e, s2) \<Rightarrow> (Inl e, s2)
                  | (Inr results, s2) \<Rightarrow>
                      (Inr (map (withContext d (o_context options)) results), s2)))
          else (Inr [], s1))"

subsection \<open>Browse: \<^verbatim>\<open>getContacts\<close>\<close>

record ContactInfo =
  name :: string
  lastMessageDate :: int
  messageCount :: nat

text \<open>
  \<^verbatim>\<open>SELECT sender as name, MAX(date) as lastMessageDate, COUNT(*) as messageCount
  FROM messages WHERE sender != '' AND is_from_me = 0 GROUP BY sender
  ORDER BY lastMessageDate DESC LIMIT ?\<close>
\<close>

definition contactRows :: "db \<Rightarrow> row list" where
  "contactRows d = filter (\<lambda>r. row_sender r \<noteq> [] \<and> is_from_me r = 0) (rows d)"

definition contactOf :: "row list \<Rightarrow> string \<Rightarrow> ContactInfo" where
  "contactOf selected n =
     (let dates = map row_date (filter (\<lambda>r. row_sender r = n) selected)
      in \<lparr>name = n,
          lastMessageDate = (case dates of [] \<Rightarrow> 0 | x # xs \<Rightarrow> fold max xs x),
          messageCount = length dates\<rparr>)"

definition getContacts :: "files \<Rightarrow> searcher \<Rightarrow> int \<Rightarrow> (error + ContactInfo list) \<times> searcher" where
  "getContacts f s limit =
     (case getDb f s of
        (Inl e, s1) \<Rightarrow> (Inl e, s1)
      | (Inr d, s1) \<Rightarrow>
          (Inr (sql_limit limit
                  (order_by_desc lastMessageDate
                     (map (contactOf (contactRows d)) (remdups (map row_sender (contactRows d)))))),
           s1))"

section \<open>Notions used to state the properties\<close>

text \<open>The cursor stored for a conversation, the empty string when there is none; the
  empty string is the least string.\<close>

definition cursorOf :: "(string \<times> string) list \<Rightarrow> string \<Rightarrow> string" where
  "cursorOf cursors k = (case map_of cursors k of None \<Rightarrow> [] | Some v \<Rightarrow> v)"

text \<open>The greatest of a stored cursor and a list of timestamps, in the order of
  \<^verbatim>\<open>>\<close> on strings.\<close>

definition maxTs :: "string \<Rightarrow> string list \<Rightarrow> string" where
  "maxTs c tss = fold max tss c"

text \<open>The timestamps observed for a conversation during a sync: those of the messages
  and thread replies collected for it.\<close>

definition observedTs :: "RawSlackMessage list \<Rightarrow> string \<Rightarrow> string list" where
  "observedTs msgs k = map r_ts (filter (\<lambda>m. r_channelId m = k) msgs)"

text \<open>
  The messages of a fetched history that the incremental sync handles to the end: those
  before the first one whose thread replies cannot be fetched.
\<close>

definition completed :: "SlackApi \<Rightarrow> string \<Rightarrow> SlackMessage list \<Rightarrow> SlackMessage list" where
  "completed api convId msgs =
     takeWhile (\<lambda>m. \<not> s_replyCount m > 0 \<or> getThreadReplies api convId (s_ts m) \<noteq> None) msgs"

text \<open>The timestamps of the history messages (thread replies not among them) that the
  incremental sync handles to the end for the conversation \<^verbatim>\<open>k\<close>.\<close>

definition historyTs ::
  "SlackApi \<Rightarrow> (string \<times> string) list \<Rightarrow> SlackConversation list \<Rightarrow> string \<Rightarrow> string list" where
  "historyTs api existingCursors convs k =
     concat (map (\<lambda>conv.
        if c_id conv = k then
          (case getConversationHistory api (c_id conv) (map_of existingCursors (c_id conv)) of
             None \<Rightarrow> []
           | Some messages \<Rightarrow> map s_ts (completed api (c_id conv) messages))
        else []) convs)"

text \<open>The messages an incremental sync collects, and the cursors it ends with.\<close>

definition fetchNew :: "SlackApi \<Rightarrow> files \<Rightarrow> IndexStats \<Rightarrow> SlackConversation list \<Rightarrow>
   RawSlackMessage list \<times> (string \<times> string) list" where
  "fetchNew api f existingStats convs =
     updateAll api (loadUsersCache f) (conversationCursors existingStats) convs
       ([], conversationCursors existingStats)"

text \<open>The timestamps of the stored messages, in rowid order.\<close>

definition storedTs :: "db \<Rightarrow> string list" where
  "storedTs d = map ts (rows d)"

text \<open>Counts taken from the stored corpus.\<close>

definition storedMessages :: "db \<Rightarrow> nat" where
  "storedMessages d = length (rows d)"

definition storedChats :: "db \<Rightarrow> nat" where
  "storedChats d = card (chat_id ` set (rows d))"

definition storedContacts :: "db \<Rightarrow> nat" where
  "storedContacts d = card (row_sender ` set (rows d))"

text \<open>The messages of the store in the conversation \<^verbatim>\<open>chat\<close> that are older,
  respectively newer, than \<^verbatim>\<open>when\<close>.\<close>

definition olderIn :: "db \<Rightarrow> string \<Rightarrow> int \<Rightarrow> IndexedMessage list" where
  "olderIn d chat when = filter (\<lambda>m. chatId m = chat \<and> date m < when) (map rowToMessage (rows d))"

definition newerIn :: "db \<Rightarrow> string \<Rightarrow> int \<Rightarrow> IndexedMessage list" where
  "newerIn d chat when = filter (\<lambda>m. chatId m = chat \<and> date m > when) (map rowToMessage (rows d))"

text \<open>The rows a contact is counted from: those of the sender that are not
  self-authored.\<close>

definition rowsOfContact :: "db \<Rightarrow> string \<Rightarrow> row list" where
  "rowsOfContact d n = filter (\<lambda>r. row_sender r = n \<and> is_from_me r = 0) (rows d)"


section \<open>Example data\<close>

text \<open>A workspace of three users; the authenticated user is \<^verbatim>\<open>U1\<close>.\<close>

definition ex_users :: "SlackUser list" where
  "ex_users =
     [\<lparr>u_id = ''U1'', u_name = ''alice'', u_realName = ''Alice A'', u_displayName = ''Alice''\<rparr>,
      \<lparr>u_id = ''U2'', u_name = ''bob'', u_realName = ''Bob B'', u_displayName = ''''\<rparr>,
      \<lparr>u_id = ''U3'', u_name = ''carol_d'', u_realName = '''', u_displayName = ''''\<rparr>]"

definition ex_conv :: "string \<Rightarrow> string \<Rightarrow> SlackConversation" where
  "ex_conv i n =
     \<lparr>c_id = i, c_name = n, c_isChannel = True, c_isPrivate = False, c_isIm = False,
      c_isMpim = False, c_userId = None\<rparr>"

definition ex_msg :: "string \<Rightarrow> string \<Rightarrow> string \<Rightarrow> string \<Rightarrow> nat \<Rightarrow> SlackMessage" where
  "ex_msg chan t u txt n =
     \<lparr>s_ts = t, s_user = u, s_text = txt, s_channelId = chan, s_threadTs = None,
      s_replyCount = n\<rparr>"

definition ex_reply :: "string \<Rightarrow> string \<Rightarrow> string \<Rightarrow> string \<Rightarrow> string \<Rightarrow> SlackMessage" where
  "ex_reply chan parent t u txt =
     \<lparr>s_ts = t, s_user = u, s_text = txt, s_channelId = chan, s_threadTs = Some parent,
      s_replyCount = 0\<rparr>"

definition ex_auth :: AuthInfo where
  "ex_auth = \<lparr>userId = ''U1'', teamId = ''T1'', teamName = ''Team''\<rparr>"

text \<open>The remote at the full sync: one conversation with one message.\<close>

definition ex_api_full :: SlackApi where
  "ex_api_full =
     \<lparr>testAuth = Some ex_auth,
      listUsers = Some ex_users,
      listConversations = Some [ex_conv ''C1'' ''general''],
      getConversationHistory =
        (\<lambda>c oldest. if c = ''C1'' then Some [ex_msg ''C1'' ''100.000000'' ''U2'' ''hello'' 0]
                     else None),
      getThreadReplies = (\<lambda>c t. Some [])\<rparr>"

text \<open>
  The remote at the next incremental sync: nothing new in \<^verbatim>\<open>C1\<close>, and a second
  conversation \<^verbatim>\<open>C2\<close> with one message by another user and one thread reply to it.
\<close>

definition ex_api_incr :: SlackApi where
  "ex_api_incr =
     \<lparr>testAuth = Some ex_auth,
      listUsers = Some ex_users,
      listConversations = Some [ex_conv ''C1'' ''general'', ex_conv ''C2'' ''random''],
      getConversationHistory =
        (\<lambda>c oldest.
           if c = ''C1'' then Some []
           else if c = ''C2'' then Some [ex_msg ''C2'' ''200.000000'' ''U3'' ''status?'' 1]
           else None),
      getThreadReplies =
        (\<lambda>c t. if c = ''C2'' \<and> t = ''200.000000''
               then Some [ex_reply ''C2'' ''200.000000'' ''300.000000'' ''U3'' ''done'']
               else Some [])\<rparr>"

text \<open>The remote at an incremental sync with nothing new.\<close>

definition ex_api_idle :: SlackApi where
  "ex_api_idle =
     \<lparr>testAuth = Some ex_auth,
      listUsers = Some ex_users,
      listConversations = Some [ex_conv ''C1'' ''general''],
      getConversationHistory = (\<lambda>c oldest. if c = ''C1'' then Some [] else None),
      getThreadReplies = (\<lambda>c t. Some [])\<rparr>"

definition ex_files_fresh :: files where
  "ex_files_fresh =
     \<lparr>workspace = Some ''xoxp-token'', indexDb = None, fuzzyIndex = None, statsFile = None,
      usersCache = None\<rparr>"

text \<open>The files after the full sync at time 5000 against \<^const>\<open>ex_api_full\<close>.\<close>

definition ex_row1 :: row where
  "ex_row1 =
     \<lparr>row_id = 1, ts = ''100.000000'', row_text = ''hello'', row_sender = ''Bob B'',
      chat_name = ''general'', chat_id = ''C1'', row_date = 100, is_from_me = 0,
      thread_ts = None\<rparr>"

definition ex_stats_full :: IndexStats where
  "ex_stats_full =
     \<lparr>totalMessages = 1, totalChats = 1, totalContacts = 1, indexedAt = 5000,
      oldestMessage = 100000, newestMessage = 100000, workspaceId = ''T1'',
      workspaceName = ''Team'', conversationCursors = [(''C1'', ''100.000000'')]\<rparr>"

definition ex_files_full :: files where
  "ex_files_full =
     \<lparr>workspace = Some ''xoxp-token'',
      indexDb = Some \<lparr>rows = [ex_row1], seq = 1\<rparr>,
      fuzzyIndex = Some [rowToMessage ex_row1],
      statsFile = Some ex_stats_full,
      usersCache = Some (userMap_of ex_users)\<rparr>"

text \<open>A store of one conversation with messages at the dates 10, 20, 30, 40 and 50, and
  one message of another conversation.\<close>

definition ex_row :: "nat \<Rightarrow> string \<Rightarrow> string \<Rightarrow> string \<Rightarrow> int \<Rightarrow> int \<Rightarrow> row" where
  "ex_row i t who chat when mine =
     \<lparr>row_id = i, ts = t, row_text = ''text'', row_sender = who,
      chat_name = ''general'', chat_id = chat, row_date = when, is_from_me = mine,
      thread_ts = None\<rparr>"

definition ex_db :: db where
  "ex_db =
     \<lparr>rows = [ex_row 1 ''30.000000'' ''Bob'' ''C1'' 30 0,
              ex_row 2 ''10.000000'' ''Alice'' ''C1'' 10 1,
              ex_row 3 ''50.000000'' ''Bob'' ''C1'' 50 0,
              ex_row 4 ''20.000000'' ''carol_d'' ''C1'' 20 0,
              ex_row 5 ''40.000000'' ''Alice'' ''C1'' 40 1,
              ex_row 6 ''25.000000'' ''Bob'' ''C2'' 25 0],
      seq = 6\<rparr>"

definition ex_files_db :: files where
  "ex_files_db =
     \<lparr>workspace = Some ''xoxp-token'', indexDb = Some ex_db,
      fuzzyIndex = Some (map rowToMessage (rows ex_db)), statsFile = None, usersCache = None\<rparr>"

definition ex_searcher :: searcher where
  "ex_searcher = \<lparr>cachedDb = None, cachedMiniSearch = None\<rparr>"

text \<open>A stand-in ranking: every stored document is a hit, in stored order, with score 1.\<close>

definition ex_engine :: engine where
  "ex_engine docs q = map (\<lambda>m. \<lparr>message = m, score = 1, matchedTerms = [q]\<rparr>) docs"

text \<open>The statistics the incremental sync at time 9000 against \<^const>\<open>ex_api_incr\<close>
  stores.\<close>

definition ex_stats_incr :: IndexStats where
  "ex_stats_incr =
     \<lparr>totalMessages = 3, totalChats = 1, totalContacts = 1, indexedAt = 9000,
      oldestMessage = 100000, newestMessage = 300000, workspaceId = ''T1'',
      workspaceName = ''Team'',
      conversationCursors = [(''C1'', ''100.000000''), (''C2'', ''200.000000'')]\<rparr>"

definition ex_options :: "string option \<Rightarrow> string option \<Rightarrow> int option \<Rightarrow> int \<Rightarrow> int \<Rightarrow> SearchOptions" where
  "ex_options q fr af l c = \<lparr>o_query = q, o_from = fr, o_after = af, o_limit = l, o_context = c\<rparr>"

text \<open>The hits of the sender-only search for \<^verbatim>\<open>bob\<close> with two messages of context,
  and the one at date 30.\<close>

definition ex_hits :: "SearchResultWithContext list" where
  "ex_hits = map (withContext ex_db 2) (searchBySender ex_db ''bob'' None 10)"

definition ex_hit :: SearchResultWithContext where
  "ex_hit =
     withContext ex_db 2
       \<lparr>message = rowToMessage (ex_row 1 ''30.000000'' ''Bob'' ''C1'' 30 0), score = 1,
        matchedTerms = []\<rparr>"

text \<open>The statistics a full sync at time 9000 against \<^const>\<open>ex_api_incr\<close> stores,
  starting from no index.\<close>

definition ex_stats_rebuilt :: IndexStats where
  "ex_stats_rebuilt =
     \<lparr>totalMessages = 2, totalChats = 1, totalContacts = 1, indexedAt = 9000,
      oldestMessage = 200000, newestMessage = 300000, workspaceId = ''T1'',
      workspaceName = ''Team'', conversationCursors = [(''C2'', ''300.000000'')]\<rparr>"



section \<open>Insertion is idempotent by ts\<close>

lemma insertOne_cases:
  "rows (insertOne um uid d m) = rows d \<and> r_ts m \<in> set (map ts (rows d)) \<or>
   (\<exists>r. rows (insertOne um uid d m) = rows d @ [r] \<and> ts r = r_ts m \<and>
        r_ts m \<notin> set (map ts (rows d)))"
  by (simp add: insertOne_def insertMessages_def)

lemma insertOne_distinct:
  "distinct (map ts (rows d)) \<Longrightarrow> distinct (map ts (rows (insertOne um uid d m)))"
  using insertOne_cases [of um uid d m] by auto

lemma insertOne_prefix: "prefix (rows d) (rows (insertOne um uid d m))"
  using insertOne_cases [of um uid d m] by auto

lemma insertOne_present: "r_ts m \<in> set (map ts (rows (insertOne um uid d m)))"
  using insertOne_cases [of um uid d m] by auto

lemma insertOne_noop:
  "r_ts m \<in> set (map ts (rows d)) \<Longrightarrow> rows (insertOne um uid d m) = rows d"
  by (simp add: insertOne_def insertMessages_def)

lemma insertBatch_distinct:
  "distinct (map ts (rows d)) \<Longrightarrow> distinct (map ts (rows (insertBatch um uid d b)))"
  unfolding insertBatch_def
  by (induction b arbitrary: d) (simp_all add: insertOne_distinct)

lemma insertBatch_prefix: "prefix (rows d) (rows (insertBatch um uid d b))"
  unfolding insertBatch_def
proof (induction b arbitrary: d)
  case Nil
  show ?case by simp
next
  case (Cons m b)
  have "prefix (rows d) (rows (insertOne um uid d m))" by (rule insertOne_prefix)
  also have "prefix \<dots> (rows (foldl (insertOne um uid) (insertOne um uid d m) b))"
    by (rule Cons.IH)
  finally show ?case by simp
qed

lemma insertBatch_noop:
  "r_ts ` set b \<subseteq> set (map ts (rows d)) \<Longrightarrow> rows (insertBatch um uid d b) = rows d"
  unfolding insertBatch_def
  by (induction b arbitrary: d) (simp_all add: insertOne_noop)

lemma insertBatch_present:
  "r_ts ` set b \<subseteq> set (map ts (rows (insertBatch um uid d b)))"
  unfolding insertBatch_def
proof (induction b arbitrary: d)
  case Nil
  show ?case by simp
next
  case (Cons m b)
  have "r_ts m \<in> set (map ts (rows (insertOne um uid d m)))" by (rule insertOne_present)
  moreover have "set (rows (insertOne um uid d m))
      \<subseteq> set (rows (foldl (insertOne um uid) (insertOne um uid d m) b))"
    using insertBatch_prefix [of "insertOne um uid d m" um uid b]
    by (simp add: insertBatch_def set_mono_prefix)
  ultimately have "r_ts m \<in> set (map ts (rows (foldl (insertOne um uid) (insertOne um uid d m) b)))"
    by auto
  with Cons.IH [of "insertOne um uid d m"] show ?case by simp
qed

lemma insertBatches_distinct:
  "distinct (map ts (rows d)) \<Longrightarrow> distinct (map ts (rows (insertBatches um uid d bs)))"
  unfolding insertBatches_def
  by (induction bs arbitrary: d) (simp_all add: insertBatch_distinct)

lemma insertBatches_prefix: "prefix (rows d) (rows (insertBatches um uid d bs))"
  unfolding insertBatches_def
proof (induction bs arbitrary: d)
  case Nil
  show ?case by simp
next
  case (Cons b bs)
  have "prefix (rows d) (rows (insertBatch um uid d b))" by (rule insertBatch_prefix)
  also have "prefix \<dots> (rows (foldl (insertBatch um uid) (insertBatch um uid d b) bs))"
    by (rule Cons.IH)
  finally show ?case by simp
qed

lemma insertBatches_present:
  "b \<in> set bs \<Longrightarrow> r_ts ` set b \<subseteq> set (map ts (rows (insertBatches um uid d bs)))"
  unfolding insertBatches_def
proof (induction bs arbitrary: d)
  case Nil
  then show ?case by simp
next
  case (Cons a bs)
  show ?case
  proof (cases "b = a")
    case True
    have "set (rows (insertBatch um uid d a))
        \<subseteq> set (rows (foldl (insertBatch um uid) (insertBatch um uid d a) bs))"
      using insertBatches_prefix [of "insertBatch um uid d a" um uid bs]
      by (simp add: insertBatches_def set_mono_prefix)
    with insertBatch_present [of a um uid d] True show ?thesis by auto
  next
    case False
    with Cons.prems have "b \<in> set bs" by simp
    from Cons.IH [OF this, of "insertBatch um uid d a"] show ?thesis by simp
  qed
qed

lemma insertBatches_noop:
  "\<forall>b \<in> set bs. r_ts ` set b \<subseteq> set (map ts (rows d)) \<Longrightarrow>
   rows (insertBatches um uid d bs) = rows d"
  unfolding insertBatches_def
  by (induction bs arbitrary: d) (simp_all add: insertBatch_noop)

text \<open>
  C4. Insertion into the structured store is idempotent by \<^verbatim>\<open>ts\<close>: a message whose ts
  is already stored is dropped silently and the stored rows stay as they are (first write
  wins), so after any sequence of batch insertions into a table that satisfies its
  \<^verbatim>\<open>UNIQUE\<close> constraint no two rows share a ts, and inserting the same batches once more
  leaves the rows of the table, and so its record count, unchanged.
\<close>

theorem insert_idempotent_by_ts:
  assumes "distinct (map ts (rows d))"
  shows "distinct (map ts (rows (insertBatches um uid d bs))) \<and>
         prefix (rows d) (rows (insertBatches um uid d bs)) \<and>
         (r_ts m \<in> set (map ts (rows d)) \<longrightarrow> rows (insertOne um uid d m) = rows d) \<and>
         rows (insertBatches um uid (insertBatches um uid d bs) bs) =
           rows (insertBatches um uid d bs) \<and>
         length (rows (insertBatches um uid (insertBatches um uid d bs) bs)) =
           length (rows (insertBatches um uid d bs))"
proof -
  have "\<forall>b \<in> set bs. r_ts ` set b \<subseteq> set (map ts (rows (insertBatches um uid d bs)))"
    using insertBatches_present by blast
  then have again:
    "rows (insertBatches um uid (insertBatches um uid d bs) bs) =
       rows (insertBatches um uid d bs)"
    by (rule insertBatches_noop)
  show ?thesis
    using assms again
    by (simp add: insertBatches_distinct insertBatches_prefix insertOne_noop)
qed

theorem insert_idempotent_by_ts_witness:
  "distinct (map ts (rows ex_db)) \<and>
   distinct (map ts (rows (insertBatches (userMap_of ex_users) ''U1'' ex_db
      [[toRaw ''general'' (ex_msg ''C1'' ''30.000000'' ''U2'' ''again'' 0),
        toRaw ''general'' (ex_msg ''C1'' ''60.000000'' ''U2'' ''new'' 0)],
       [toRaw ''general'' (ex_msg ''C1'' ''60.000000'' ''U3'' ''late'' 0)]]))) \<and>
   length (rows (insertBatches (userMap_of ex_users) ''U1'' ex_db
      [[toRaw ''general'' (ex_msg ''C1'' ''30.000000'' ''U2'' ''again'' 0),
        toRaw ''general'' (ex_msg ''C1'' ''60.000000'' ''U2'' ''new'' 0)],
       [toRaw ''general'' (ex_msg ''C1'' ''60.000000'' ''U3'' ''late'' 0)]])) = 7"
  using insert_idempotent_by_ts [of ex_db "userMap_of ex_users" "''U1''"
      "[[toRaw ''general'' (ex_msg ''C1'' ''30.000000'' ''U2'' ''again'' 0),
        toRaw ''general'' (ex_msg ''C1'' ''60.000000'' ''U2'' ''new'' 0)],
       [toRaw ''general'' (ex_msg ''C1'' ''60.000000'' ''U3'' ''late'' 0)]]"]
  by (simp add: ex_db_def ex_row_def ex_msg_def toRaw_def insertBatches_def insertBatch_def
      insertOne_def insertMessages_def)

section \<open>Search without a text query and without an index\<close>

lemma getDb_none: "indexDb f = None \<Longrightarrow> cachedDb s = None \<Longrightarrow> getDb f s = (Inl IndexNotFound, s)"
  by (simp add: getDb_def)

lemma getDb_some:
  "indexDb f \<noteq> None \<or> cachedDb s \<noteq> None \<Longrightarrow> \<exists>d s'. getDb f s = (Inr d, s')"
  by (auto simp: getDb_def split: option.splits)

lemma trim_empty_iff: "trim q = [] \<longleftrightarrow> (\<forall>c \<in> set q. is_space c)"
proof
  assume "trim q = []"
  then have rest: "\<forall>x \<in> set (dropWhile is_space q). is_space x"
    by (simp add: trim_def dropWhile_eq_Nil_conv)
  have "dropWhile is_space q = []"
  proof (rule ccontr)
    assume ne: "dropWhile is_space q \<noteq> []"
    then have "\<not> is_space (hd (dropWhile is_space q))" by (rule hd_dropWhile)
    moreover from ne have "hd (dropWhile is_space q) \<in> set (dropWhile is_space q)" by simp
    ultimately show False using rest by blast
  qed
  then show "\<forall>c \<in> set q. is_space c" by (simp add: dropWhile_eq_Nil_conv)
next
  assume "\<forall>c \<in> set q. is_space c"
  then show "trim q = []" by (auto simp: trim_def dest: set_dropWhileD)
qed

lemma search_no_query:
  assumes "\<not> hasTextQuery (o_query opts)" and "\<not> truthy (o_from opts)"
    and "indexDb f \<noteq> None \<or> cachedDb s \<noteq> None"
  shows "fst (search eng f s opts) = Inr []"
proof -
  from assms(3) obtain d s' where "getDb f s = (Inr d, s')"
    using getDb_some by blast
  with assms(1,2) show ?thesis
    by (simp add: search_def ensureIndex_def)
qed

text \<open>
  C10. \<^verbatim>\<open>search\<close> opens the structured store before it looks at the shape of the
  query: when no index has been built (no \<^verbatim>\<open>index.db\<close>, nothing cached), every call
  raises the index-not-found error, also a call with no usable text query and no sender,
  which answers the empty list once the store exists.
\<close>

theorem search_without_index:
  assumes "indexDb f = None" and "cachedDb s = None"
  shows "fst (search eng f s opts) = Inl IndexNotFound \<and>
         (\<not> hasTextQuery (o_query opts) \<and> \<not> truthy (o_from opts) \<longrightarrow>
            fst (search eng (f\<lparr>indexDb := Some d\<rparr>) s opts) = Inr [])"
proof -
  have "fst (search eng f s opts) = Inl IndexNotFound"
    using assms by (simp add: search_def ensureIndex_def getDb_none)
  moreover have "\<not> hasTextQuery (o_query opts) \<and> \<not> truthy (o_from opts) \<longrightarrow>
      fst (search eng (f\<lparr>indexDb := Some d\<rparr>) s opts) = Inr []"
    by (simp add: search_no_query)
  ultimately show ?thesis by simp
qed

theorem search_without_index_witness:
  "indexDb ex_files_fresh = None \<and> cachedDb ex_searcher = None \<and>
   fst (search ex_engine ex_files_fresh ex_searcher (ex_options (Some ''deadline'') None None 10 2))
     = Inl IndexNotFound \<and>
   fst (search ex_engine ex_files_fresh ex_searcher (ex_options (Some '''') None None 10 2))
     = Inl IndexNotFound \<and>
   fst (search ex_engine (ex_files_fresh\<lparr>indexDb := Some ex_db\<rparr>) ex_searcher
          (ex_options (Some '''') None None 10 2)) = Inr []"
  using search_without_index [of ex_files_fresh ex_searcher ex_engine
      "ex_options (Some ''deadline'') None None 10 2" ex_db]
    search_without_index [of ex_files_fresh ex_searcher ex_engine
      "ex_options (Some '''') None None 10 2" ex_db]
  by (simp add: ex_files_fresh_def ex_searcher_def ex_options_def hasTextQuery_def truthy_def)

text \<open>
  C5, as stated, fails: with no index built, a search with an empty query and no sender
  raises instead of answering the empty list.
\<close>

theorem empty_query_needs_index_counterexample:
  "fst (search ex_engine ex_files_fresh ex_searcher (ex_options (Some '''') None None 10 2))
     \<noteq> Inr []"
  by (simp add: search_def ensureIndex_def getDb_def ex_files_fresh_def ex_searcher_def)

text \<open>
  C5, amended. When the structured store exists, every search whose text query is absent,
  the empty string, made of white space only or the wildcard \<^verbatim>\<open>*\<close>, and whose sender
  filter is absent, answers the empty list and raises no error.
\<close>

theorem empty_query_empty_result:
  assumes "o_query opts = None \<or> o_query opts = Some [] \<or> o_query opts = Some ''*'' \<or>
           (\<exists>q. o_query opts = Some q \<and> (\<forall>c \<in> set q. is_space c))"
    and "o_from opts = None"
    and "indexDb f \<noteq> None \<or> cachedDb s \<noteq> None"
  shows "fst (search eng f s opts) = Inr []"
proof -
  have "\<not> hasTextQuery (o_query opts)"
    using assms(1) by (auto simp: hasTextQuery_def trim_empty_iff)
  moreover have "\<not> truthy (o_from opts)"
    using assms(2) by (simp add: truthy_def)
  ultimately show ?thesis
    using assms(3) by (rule search_no_query)
qed

theorem empty_query_empty_result_witness:
  "o_query (ex_options (Some ''  '') None None 10 2) = Some ''  '' \<and>
   is_space (CHR '' '') \<and>
   o_from (ex_options (Some ''  '') None None 10 2) = None \<and>
   indexDb ex_files_db = Some ex_db \<and>
   fst (search ex_engine ex_files_db ex_searcher (ex_options (Some ''  '') None None 10 2)) = Inr []"
proof -
  have q: "o_query (ex_options (Some ''  '') None None 10 2) = None \<or>
    o_query (ex_options (Some ''  '') None None 10 2) = Some [] \<or>
    o_query (ex_options (Some ''  '') None None 10 2) = Some ''*'' \<or>
    (\<exists>q. o_query (ex_options (Some ''  '') None None 10 2) = Some q \<and> (\<forall>c \<in> set q. is_space c))"
    by (simp add: ex_options_def is_space_def)
  have fr: "o_from (ex_options (Some ''  '') None None 10 2) = None"
    by (simp add: ex_options_def)
  have ix: "indexDb ex_files_db \<noteq> None \<or> cachedDb ex_searcher \<noteq> None"
    by (simp add: ex_files_db_def)
  have "o_query (ex_options (Some ''  '') None None 10 2) = Some ''  ''"
    and "is_space (CHR '' '')" and "indexDb ex_files_db = Some ex_db"
    by (simp_all add: ex_options_def is_space_def ex_files_db_def)
  with fr empty_query_empty_result [OF q fr ix, of ex_engine] show ?thesis by simp
qed

section \<open>Corpus statistics after a sync\<close>

lemmas ex_sync_defs =
  ex_api_full_def ex_api_incr_def ex_api_idle_def ex_files_fresh_def ex_files_full_def
  ex_stats_full_def ex_stats_incr_def ex_auth_def ex_users_def ex_conv_def ex_msg_def
  ex_reply_def ex_row1_def

lemmas sync_defs =
  userMap_of_def resolveConversationName_def toRaw_def loadUsersCache_def BATCH_SIZE_def
  insertBatch_def insertOne_def insertMessages_def empty_db_def resolveUserName_def
  slackTsToUnix_def digit_of_def or_null_def truthy_def oldestDate_of_def newestDate_of_def
  trackCursors_def advance_def newestAfter_def order_by_asc_def rowToMessage_def
  distinct_count_def

text \<open>The example files are those a full sync leaves.\<close>

lemma ex_full_sync:
  "buildIndex 5000 ex_api_full ex_files_fresh = (Inr ex_stats_full, ex_files_full)"
  by (simp add: buildIndex_def ex_sync_defs sync_defs Let_def)

text \<open>
  After a full sync the stored statistics are those of the stored corpus: the number of
  rows, of distinct conversation ids and of distinct sender names.
\<close>

lemma full_sync_stats_recomputed:
  assumes "buildIndex now api f = (Inr st, f')"
  shows "\<exists>d. indexDb f' = Some d \<and> statsFile f' = Some st \<and>
             totalMessages st = storedMessages d \<and> totalChats st = storedChats d \<and>
             totalContacts st = storedContacts d"
  using assms
  by (auto simp: buildIndex_def Let_def storedMessages_def storedChats_def storedContacts_def
      distinct_count_def length_remdups_card_conv order_by_asc_def rowToMessage_def image_image
      split: option.splits sum.splits)

text \<open>
  C1 at an incremental sync. The index holds one message of one conversation by one sender;
  the sync adds a message and a thread reply of a second conversation by a second sender.
  \<^verbatim>\<open>updateIndex\<close> succeeds and stores \<^verbatim>\<open>totalChats = 1\<close> and
  \<^verbatim>\<open>totalContacts = 1\<close>, carried over from the old statistics, while the store now
  holds two conversation ids and two sender names.
\<close>

theorem incremental_stats_stale:
  "fst (updateIndex 9000 ex_api_incr ex_files_full) = Inr (Some ex_stats_incr) \<and>
   statsFile (snd (updateIndex 9000 ex_api_incr ex_files_full)) = Some ex_stats_incr \<and>
   map_option storedMessages (indexDb (snd (updateIndex 9000 ex_api_incr ex_files_full))) = Some 3 \<and>
   map_option storedChats (indexDb (snd (updateIndex 9000 ex_api_incr ex_files_full))) = Some 2 \<and>
   map_option storedContacts (indexDb (snd (updateIndex 9000 ex_api_incr ex_files_full))) = Some 2 \<and>
   totalMessages ex_stats_incr = 3 \<and> totalChats ex_stats_incr = 1 \<and>
   totalContacts ex_stats_incr = 1"
  by (simp add: updateIndex_def ex_sync_defs sync_defs storedMessages_def storedChats_def
      storedContacts_def Let_def)

section \<open>An incremental sync that finds nothing new\<close>

text \<open>The collected messages only grow, and the cursors move only when a message is
  collected.\<close>

lemma updateMessages_prefix:
  "prefix (fst st) (fst (updateMessages api cid cn msgs st))"
proof (induction msgs arbitrary: st)
  case Nil
  show ?case by simp
next
  case (Cons m msgs)
  obtain new cur where st: "st = (new, cur)" by (cases st)
  show ?case
  proof (cases "s_replyCount m > 0")
    case False
    have "prefix new (new @ [toRaw cn m])" by simp
    also have "prefix \<dots> (fst (updateMessages api cid cn msgs (new @ [toRaw cn m], advance cur cid (s_ts m))))"
      using Cons.IH [of "(new @ [toRaw cn m], advance cur cid (s_ts m))"] by simp
    finally show ?thesis using False st by (simp add: Let_def)
  next
    case True
    show ?thesis
    proof (cases "getThreadReplies api cid (s_ts m)")
      case None
      with True st show ?thesis by (simp add: Let_def)
    next
      case (Some rs)
      have "prefix new (new @ [toRaw cn m] @ map (toRaw cn) rs)" by simp
      also have "prefix \<dots> (fst (updateMessages api cid cn msgs
          (new @ [toRaw cn m] @ map (toRaw cn) rs, advance cur cid (s_ts m))))"
        using Cons.IH [of "(new @ [toRaw cn m] @ map (toRaw cn) rs, advance cur cid (s_ts m))"]
        by simp
      finally show ?thesis using True Some st by (simp add: Let_def)
    qed
  qed
qed

lemma updateMessages_grows:
  "msgs \<noteq> [] \<Longrightarrow> length (fst st) < length (fst (updateMessages api cid cn msgs st))"
proof (cases msgs)
  case Nil
  assume "msgs \<noteq> []"
  with Nil show ?thesis by simp
next
  case (Cons m ms)
  obtain new cur where st: "st = (new, cur)" by (cases st)
  have a: "length new < length (fst (updateMessages api cid cn ms (new @ [toRaw cn m] @ extra, c')))"
    for extra c'
    using updateMessages_prefix [of "(new @ [toRaw cn m] @ extra, c')" api cid cn ms]
    by (auto dest!: prefix_length_le)
  show ?thesis
    using Cons st a [of "[]"] a
    by (auto simp: Let_def split: option.splits)
qed

lemma updateMessages_unchanged:
  assumes "fst (updateMessages api cid cn msgs st) = fst st"
  shows "snd (updateMessages api cid cn msgs st) = snd st"
proof (cases "msgs = []")
  case True
  then show ?thesis by simp
next
  case False
  from updateMessages_grows [OF False, of st api cid cn] assms show ?thesis by simp
qed

lemma updateAll_prefix:
  "prefix (fst st) (fst (updateAll api um ex convs st))"
proof (induction convs arbitrary: st)
  case Nil
  show ?case by simp
next
  case (Cons conv convs)
  show ?case
  proof (cases "getConversationHistory api (c_id conv) (map_of ex (c_id conv))")
    case None
    with Cons.IH [of st] show ?thesis by simp
  next
    case (Some msgs)
    have "prefix (fst st)
        (fst (updateMessages api (c_id conv) (resolveConversationName um conv) msgs st))"
      by (rule updateMessages_prefix)
    also have "prefix \<dots> (fst (updateAll api um ex convs
        (updateMessages api (c_id conv) (resolveConversationName um conv) msgs st)))"
      by (rule Cons.IH)
    finally show ?thesis using Some by simp
  qed
qed

lemma updateAll_unchanged:
  "fst (updateAll api um ex convs st) = fst st \<Longrightarrow> snd (updateAll api um ex convs st) = snd st"
proof (induction convs arbitrary: st)
  case Nil
  show ?case by simp
next
  case (Cons conv convs)
  show ?case
  proof (cases "getConversationHistory api (c_id conv) (map_of ex (c_id conv))")
    case None
    with Cons show ?thesis by simp
  next
    case (Some msgs)
    let ?st1 = "updateMessages api (c_id conv) (resolveConversationName um conv) msgs st"
    have res: "updateAll api um ex (conv # convs) st = updateAll api um ex convs ?st1"
      using Some by simp
    have p1: "prefix (fst st) (fst ?st1)" by (rule updateMessages_prefix)
    have p2: "prefix (fst ?st1) (fst (updateAll api um ex convs ?st1))" by (rule updateAll_prefix)
    from Cons.prems res have e: "fst (updateAll api um ex convs ?st1) = fst st" by simp
    with p1 p2 have same: "fst ?st1 = fst st"
      by (metis prefix_order.antisym)
    with e have "fst (updateAll api um ex convs ?st1) = fst ?st1" by simp
    then have "snd (updateAll api um ex convs ?st1) = snd ?st1" by (rule Cons.IH)
    moreover from same have "snd ?st1 = snd st" by (rule updateMessages_unchanged)
    ultimately show ?thesis using res by simp
  qed
qed

text \<open>
  C6. An incremental sync that runs (stored cursors, a configured workspace, a successful
  authentication and conversation listing) and collects no new message returns the old
  statistics with \<^verbatim>\<open>indexedAt\<close> set to the time of the sync and stores them:
  \<^verbatim>\<open>totalMessages\<close>, \<^verbatim>\<open>totalChats\<close>, \<^verbatim>\<open>totalContacts\<close>, \<^verbatim>\<open>oldestMessage\<close>,
  \<^verbatim>\<open>newestMessage\<close>, \<^verbatim>\<open>workspaceId\<close>, \<^verbatim>\<open>workspaceName\<close> and the cursors are
  unchanged, and no other file is touched.
\<close>

theorem incremental_noop:
  assumes "statsFile f = Some st" and "conversationCursors st \<noteq> []"
    and "workspace f = Some token" and "testAuth api = Some a"
    and "listConversations api = Some convs"
    and "fst (fetchNew api f st convs) = []"
  shows "updateIndex now api f =
           (Inr (Some (st\<lparr>indexedAt := now\<rparr>)), f\<lparr>statsFile := Some (st\<lparr>indexedAt := now\<rparr>)\<rparr>)"
proof -
  have "snd (fetchNew api f st convs) = conversationCursors st"
    using assms(6) updateAll_unchanged [of api "loadUsersCache f" "conversationCursors st" convs
        "([], conversationCursors st)"]
    by (simp add: fetchNew_def)
  with assms show ?thesis
    by (simp add: updateIndex_def fetchNew_def Let_def)
qed

theorem incremental_noop_witness:
  "statsFile ex_files_full = Some ex_stats_full \<and>
   conversationCursors ex_stats_full \<noteq> [] \<and>
   workspace ex_files_full = Some ''xoxp-token'' \<and>
   testAuth ex_api_idle = Some ex_auth \<and>
   listConversations ex_api_idle = Some [ex_conv ''C1'' ''general''] \<and>
   fst (fetchNew ex_api_idle ex_files_full ex_stats_full [ex_conv ''C1'' ''general'']) = [] \<and>
   fst (updateIndex 9000 ex_api_idle ex_files_full) = Inr (Some (ex_stats_full\<lparr>indexedAt := 9000\<rparr>)) \<and>
   totalMessages (ex_stats_full\<lparr>indexedAt := 9000\<rparr>) = 1 \<and>
   indexedAt (ex_stats_full\<lparr>indexedAt := 9000\<rparr>) = 9000"
proof -
  have 1: "statsFile ex_files_full = Some ex_stats_full" by (simp add: ex_files_full_def)
  have 2: "conversationCursors ex_stats_full \<noteq> []" by (simp add: ex_stats_full_def)
  have 3: "workspace ex_files_full = Some ''xoxp-token''" by (simp add: ex_files_full_def)
  have 4: "testAuth ex_api_idle = Some ex_auth" by (simp add: ex_api_idle_def)
  have 5: "listConversations ex_api_idle = Some [ex_conv ''C1'' ''general'']"
    by (simp add: ex_api_idle_def)
  have 6: "fst (fetchNew ex_api_idle ex_files_full ex_stats_full [ex_conv ''C1'' ''general'']) = []"
    by (simp add: fetchNew_def ex_api_idle_def ex_conv_def ex_stats_full_def)
  from incremental_noop [OF 1 2 3 4 5 6, of 9000] 1 2 3 4 5 6 show ?thesis
    by (simp add: ex_stats_full_def)
qed

section \<open>Sync cursors\<close>

text \<open>One step of the cursor update is a maximum in the order of strings, the absent
  cursor counting as the empty string.\<close>

lemma cursorOf_advance:
  "cursorOf (advance cs k v) k' = (if k' = k then max (cursorOf cs k) v else cursorOf cs k')"
  by (auto simp: cursorOf_def advance_def update_conv' max_def split: option.splits)

lemma advance_dom: "map_of cs k' \<noteq> None \<Longrightarrow> map_of (advance cs k v) k' \<noteq> None"
  by (auto simp: advance_def update_conv' split: option.splits)

lemma maxTs_ge: "c \<le> maxTs c tss"
  unfolding maxTs_def
proof (induction tss arbitrary: c)
  case Nil
  show ?case by simp
next
  case (Cons t tss)
  have "c \<le> max t c" by simp
  also have "\<dots> \<le> fold max tss (max t c)" by (rule Cons.IH)
  finally show ?case by simp
qed

lemma maxTs_append: "maxTs c (xs @ ys) = maxTs (maxTs c xs) ys"
  by (simp add: maxTs_def)

lemma updateMessages_cursor:
  "cursorOf (snd (updateMessages api cid cn msgs st)) k =
     (if k = cid then maxTs (cursorOf (snd st) k) (map s_ts (completed api cid msgs))
      else cursorOf (snd st) k)"
proof (induction msgs arbitrary: st)
  case Nil
  show ?case by (simp add: completed_def maxTs_def)
next
  case (Cons m msgs)
  obtain new cur where st: "st = (new, cur)" by (cases st)
  show ?case
  proof (cases "s_replyCount m > 0 \<and> getThreadReplies api cid (s_ts m) = None")
    case True
    with st show ?thesis by (simp add: completed_def maxTs_def Let_def)
  next
    case False
    have "\<exists>extra. updateMessages api cid cn (m # msgs) st =
         updateMessages api cid cn msgs (new @ [toRaw cn m] @ extra, advance cur cid (s_ts m))"
    proof (cases "s_replyCount m > 0")
      case True
      with False obtain rs where "getThreadReplies api cid (s_ts m) = Some rs" by auto
      with True st show ?thesis
        by (intro exI [of _ "map (toRaw cn) rs"]) (simp add: Let_def)
    next
      case False
      with st show ?thesis
        by (intro exI [of _ "[]"]) (simp add: Let_def)
    qed
    then obtain extra where step:
      "updateMessages api cid cn (m # msgs) st =
         updateMessages api cid cn msgs (new @ [toRaw cn m] @ extra, advance cur cid (s_ts m))"
      by blast
    from False have comp: "completed api cid (m # msgs) = m # completed api cid msgs"
      by (auto simp: completed_def)
    show ?thesis
      unfolding step comp
      by (simp add: Cons.IH st cursorOf_advance maxTs_def max.commute)
  qed
qed

lemma updateMessages_dom:
  "map_of (snd st) k \<noteq> None \<Longrightarrow> map_of (snd (updateMessages api cid cn msgs st)) k \<noteq> None"
proof (induction msgs arbitrary: st)
  case Nil
  then show ?case by simp
next
  case (Cons m msgs)
  obtain new cur where st: "st = (new, cur)" by (cases st)
  from Cons.prems st have "map_of (advance cur cid (s_ts m)) k \<noteq> None"
    by (simp add: advance_dom)
  then have "map_of (snd (updateMessages api cid cn msgs (new', advance cur cid (s_ts m)))) k \<noteq> None"
    for new'
    using Cons.IH [of "(new', advance cur cid (s_ts m))"] by simp
  with Cons.prems st show ?case
    by (auto simp: Let_def split: option.splits)
qed

lemma updateAll_cursor:
  "cursorOf (snd (updateAll api um ex convs st)) k =
     maxTs (cursorOf (snd st) k) (historyTs api ex convs k)"
proof (induction convs arbitrary: st)
  case Nil
  show ?case by (simp add: historyTs_def maxTs_def)
next
  case (Cons conv convs)
  have split: "historyTs api ex (conv # convs) k = historyTs api ex [conv] k @ historyTs api ex convs k"
    by (simp add: historyTs_def)
  show ?case
  proof (cases "getConversationHistory api (c_id conv) (map_of ex (c_id conv))")
    case None
    then have "historyTs api ex [conv] k = []" by (auto simp: historyTs_def)
    with None Cons.IH [of st] split show ?thesis by simp
  next
    case (Some msgs)
    let ?st1 = "updateMessages api (c_id conv) (resolveConversationName um conv) msgs st"
    have one: "cursorOf (snd ?st1) k = maxTs (cursorOf (snd st) k) (historyTs api ex [conv] k)"
      using Some by (simp add: updateMessages_cursor historyTs_def maxTs_def)
    have "cursorOf (snd (updateAll api um ex (conv # convs) st)) k =
          maxTs (cursorOf (snd ?st1) k) (historyTs api ex convs k)"
      using Some Cons.IH [of ?st1] by simp
    with one split show ?thesis by (simp add: maxTs_append)
  qed
qed

lemma updateAll_dom:
  "map_of (snd st) k \<noteq> None \<Longrightarrow> map_of (snd (updateAll api um ex convs st)) k \<noteq> None"
proof (induction convs arbitrary: st)
  case Nil
  then show ?case by simp
next
  case (Cons conv convs)
  show ?case
  proof (cases "getConversationHistory api (c_id conv) (map_of ex (c_id conv))")
    case None
    with Cons.IH [OF Cons.prems] show ?thesis by simp
  next
    case (Some msgs)
    have "map_of (snd (updateMessages api (c_id conv) (resolveConversationName um conv) msgs st)) k
        \<noteq> None"
      using Cons.prems by (rule updateMessages_dom)
    from Cons.IH [OF this] Some show ?thesis by simp
  qed
qed

lemma updateIndex_cursors:
  assumes "fst (updateIndex now api f) = Inr (Some st')" and "statsFile f = Some st"
    and "listConversations api = Some convs"
  shows "conversationCursors st' = snd (fetchNew api f st convs) \<and>
         statsFile (snd (updateIndex now api f)) = Some st'"
  using assms
  by (auto simp: updateIndex_def fetchNew_def Let_def split: option.splits if_splits sum.splits)

text \<open>
  What an incremental sync does to the cursors: each cursor becomes the maximum, in the
  order of \<^verbatim>\<open>>\<close> on timestamp strings, of its previous value and the timestamps of
  the history messages of its conversation for which the cursor statement was reached.
  So no cursor decreases and no cursor is dropped.
\<close>

lemma cursor_monotone:
  assumes "fst (updateIndex now api f) = Inr (Some st')" and "statsFile f = Some st"
    and "listConversations api = Some convs"
  shows "statsFile (snd (updateIndex now api f)) = Some st' \<and>
         cursorOf (conversationCursors st') k =
           maxTs (cursorOf (conversationCursors st) k) (historyTs api (conversationCursors st) convs k) \<and>
         cursorOf (conversationCursors st) k \<le> cursorOf (conversationCursors st') k \<and>
         (map_of (conversationCursors st) k \<noteq> None \<longrightarrow> map_of (conversationCursors st') k \<noteq> None)"
proof -
  from updateIndex_cursors [OF assms]
  have cur: "conversationCursors st' = snd (fetchNew api f st convs)"
    and saved: "statsFile (snd (updateIndex now api f)) = Some st'" by simp_all
  have eq: "cursorOf (conversationCursors st') k =
      maxTs (cursorOf (conversationCursors st) k) (historyTs api (conversationCursors st) convs k)"
    unfolding cur fetchNew_def by (simp add: updateAll_cursor)
  have "map_of (conversationCursors st) k \<noteq> None \<longrightarrow> map_of (conversationCursors st') k \<noteq> None"
    unfolding cur fetchNew_def by (simp add: updateAll_dom)
  with saved eq maxTs_ge [of "cursorOf (conversationCursors st) k"] show ?thesis by simp
qed

lemma cursor_monotone_example:
  "fst (updateIndex 9000 ex_api_incr ex_files_full) = Inr (Some ex_stats_incr) \<and>
   statsFile ex_files_full = Some ex_stats_full \<and>
   listConversations ex_api_incr = Some [ex_conv ''C1'' ''general'', ex_conv ''C2'' ''random''] \<and>
   cursorOf (conversationCursors ex_stats_incr) ''C2'' =
     maxTs (cursorOf (conversationCursors ex_stats_full) ''C2'')
       (historyTs ex_api_incr (conversationCursors ex_stats_full)
          [ex_conv ''C1'' ''general'', ex_conv ''C2'' ''random''] ''C2'') \<and>
   cursorOf (conversationCursors ex_stats_full) ''C1'' \<le> cursorOf (conversationCursors ex_stats_incr) ''C1'' \<and>
   cursorOf (conversationCursors ex_stats_incr) ''C2'' = ''200.000000''"
proof -
  have 1: "fst (updateIndex 9000 ex_api_incr ex_files_full) = Inr (Some ex_stats_incr)"
    by (simp add: updateIndex_def ex_sync_defs sync_defs Let_def)
  have 2: "statsFile ex_files_full = Some ex_stats_full" by (simp add: ex_files_full_def)
  have 3: "listConversations ex_api_incr = Some [ex_conv ''C1'' ''general'', ex_conv ''C2'' ''random'']"
    by (simp add: ex_api_incr_def)
  have 4: "cursorOf (conversationCursors ex_stats_incr) ''C2'' = ''200.000000''"
    by (simp add: cursorOf_def ex_stats_incr_def)
  from cursor_monotone [OF 1 2 3, of "''C2''"] cursor_monotone [OF 1 2 3, of "''C1''"] 1 2 3 4
  show ?thesis by blast
qed

text \<open>
  C2 at an incremental sync that collects a thread reply. The stored cursor of \<^verbatim>\<open>C2\<close>
  is absent; the sync collects the message \<^verbatim>\<open>200.000000\<close> and its reply
  \<^verbatim>\<open>300.000000\<close> in \<^verbatim>\<open>C2\<close> and indexes both. The maximum of the previous cursor and
  the timestamps observed for \<^verbatim>\<open>C2\<close> is \<^verbatim>\<open>300.000000\<close>, and that is the cursor a
  full sync against the same remote stores; the incremental sync stores
  \<^verbatim>\<open>200.000000\<close>, below a timestamp it has indexed.
\<close>

theorem incremental_cursor_behind_reply:
  "fst (updateIndex 9000 ex_api_incr ex_files_full) = Inr (Some ex_stats_incr) \<and>
   map_option storedTs (indexDb (snd (updateIndex 9000 ex_api_incr ex_files_full))) =
     Some [''100.000000'', ''200.000000'', ''300.000000''] \<and>
   observedTs (fst (fetchNew ex_api_incr ex_files_full ex_stats_full
       [ex_conv ''C1'' ''general'', ex_conv ''C2'' ''random''])) ''C2'' =
     [''200.000000'', ''300.000000''] \<and>
   maxTs (cursorOf (conversationCursors ex_stats_full) ''C2'')
     (observedTs (fst (fetchNew ex_api_incr ex_files_full ex_stats_full
        [ex_conv ''C1'' ''general'', ex_conv ''C2'' ''random''])) ''C2'') = ''300.000000'' \<and>
   cursorOf (conversationCursors ex_stats_incr) ''C2'' = ''200.000000'' \<and>
   fst (buildIndex 9000 ex_api_incr ex_files_fresh) = Inr ex_stats_rebuilt \<and>
   cursorOf (conversationCursors ex_stats_rebuilt) ''C2'' = ''300.000000''"
  by (simp add: updateIndex_def buildIndex_def fetchNew_def observedTs_def cursorOf_def
      maxTs_def max_def storedTs_def ex_stats_rebuilt_def ex_sync_defs sync_defs Let_def)

section \<open>Context windows of a search hit\<close>

text \<open>In a list sorted by a key, a suffix holds the greatest and a prefix the least
  elements.\<close>

lemma mset_minus_drop: "mset xs - mset (drop n xs) = mset (take n xs)"
proof -
  have "mset xs = mset (take n xs) + mset (drop n xs)"
    by (metis append_take_drop_id mset_append)
  then show ?thesis by simp
qed

lemma mset_minus_take: "mset xs - mset (take n xs) = mset (drop n xs)"
proof -
  have "mset xs = mset (take n xs) + mset (drop n xs)"
    by (metis append_take_drop_id mset_append)
  then show ?thesis by simp
qed

lemma sorted_take_le_drop:
  assumes "sorted (map k xs)" and "x \<in> set (take n xs)" and "y \<in> set (drop n xs)"
  shows "k x \<le> k y"
proof -
  have "sorted (map k (take n xs) @ map k (drop n xs))"
    using assms(1) by (metis append_take_drop_id map_append)
  with assms(2,3) show ?thesis by (auto simp: sorted_append)
qed

lemma sorted_map_drop: "sorted (map k xs) \<Longrightarrow> sorted (map k (drop n xs))"
  by (metis drop_map sorted_wrt_drop)

lemma sorted_map_take: "sorted (map k xs) \<Longrightarrow> sorted (map k (take n xs))"
  by (metis take_map sorted_wrt_take)

lemma date_rowToMessage: "map date (map rowToMessage xs) = map row_date xs"
  by (simp add: rowToMessage_def)

lemma olderIn_rows:
  "olderIn d chat when =
     map rowToMessage (filter (\<lambda>r. chat_id r = chat \<and> row_date r < when) (rows d))"
  by (simp add: olderIn_def filter_map o_def rowToMessage_def)

lemma newerIn_rows:
  "newerIn d chat when =
     map rowToMessage (filter (\<lambda>r. chat_id r = chat \<and> row_date r > when) (rows d))"
  by (simp add: newerIn_def filter_map o_def rowToMessage_def)

lemma contextBefore_drop:
  assumes "0 \<le> c"
  shows "contextBefore d chat when c =
     drop (length (olderIn d chat when) - nat c)
       (map rowToMessage (sort_key row_date
          (filter (\<lambda>r. chat_id r = chat \<and> row_date r < when) (rows d))))"
  using assms
  by (simp add: contextBefore_def sql_limit_def order_by_desc_def rev_take olderIn_rows drop_map)

lemma contextAfter_take:
  assumes "0 \<le> c"
  shows "contextAfter d chat when c =
     take (nat c)
       (map rowToMessage (sort_key row_date
          (filter (\<lambda>r. chat_id r = chat \<and> row_date r > when) (rows d))))"
  using assms
  by (simp add: contextAfter_def sql_limit_def order_by_asc_def take_map)

lemma window_suffix:
  assumes "sorted (map k xs)"
  shows "sorted (map k (drop n xs))"
    and "mset (drop n xs) \<subseteq># mset xs"
    and "\<forall>x \<in># mset xs - mset (drop n xs). \<forall>y \<in> set (drop n xs). k x \<le> k y"
proof -
  show "sorted (map k (drop n xs))" using assms by (rule sorted_map_drop)
  have "mset xs = mset (take n xs) + mset (drop n xs)"
    by (metis append_take_drop_id mset_append)
  then show "mset (drop n xs) \<subseteq># mset xs" by simp
  show "\<forall>x \<in># mset xs - mset (drop n xs). \<forall>y \<in> set (drop n xs). k x \<le> k y"
  proof (intro ballI)
    fix x y
    assume "x \<in># mset xs - mset (drop n xs)" and y: "y \<in> set (drop n xs)"
    then have "x \<in> set (take n xs)" by (simp add: mset_minus_drop)
    with assms show "k x \<le> k y" using y by (rule sorted_take_le_drop)
  qed
qed

lemma window_prefix:
  assumes "sorted (map k xs)"
  shows "sorted (map k (take n xs))"
    and "mset (take n xs) \<subseteq># mset xs"
    and "\<forall>x \<in># mset xs - mset (take n xs). \<forall>y \<in> set (take n xs). k y \<le> k x"
proof -
  show "sorted (map k (take n xs))" using assms by (rule sorted_map_take)
  have "mset xs = mset (take n xs) + mset (drop n xs)"
    by (metis append_take_drop_id mset_append)
  then show "mset (take n xs) \<subseteq># mset xs" by simp
  show "\<forall>x \<in># mset xs - mset (take n xs). \<forall>y \<in> set (take n xs). k y \<le> k x"
  proof (intro ballI)
    fix x y
    assume "x \<in># mset xs - mset (take n xs)" and y: "y \<in> set (take n xs)"
    then have "x \<in> set (drop n xs)" by (simp add: mset_minus_take)
    with assms y show "k y \<le> k x" by (rule sorted_take_le_drop)
  qed
qed

lemma contextBefore_window:
  assumes "0 \<le> c"
  shows "sorted (map date (contextBefore d chat when c)) \<and>
         length (contextBefore d chat when c) = min (nat c) (length (olderIn d chat when)) \<and>
         mset (contextBefore d chat when c) \<subseteq># mset (olderIn d chat when) \<and>
         (\<forall>x \<in># mset (olderIn d chat when) - mset (contextBefore d chat when c).
            \<forall>y \<in> set (contextBefore d chat when c). date x \<le> date y)"
proof -
  define S where "S = map rowToMessage (sort_key row_date
      (filter (\<lambda>r. chat_id r = chat \<and> row_date r < when) (rows d)))"
  define n where "n = length (olderIn d chat when) - nat c"
  have ctx: "contextBefore d chat when c = drop n S"
    unfolding S_def n_def using assms by (rule contextBefore_drop)
  have srt: "sorted (map date S)"
    unfolding S_def date_rowToMessage by (rule sorted_sort_key)
  have ms: "mset (olderIn d chat when) = mset S"
    by (simp add: olderIn_rows S_def)
  have len: "length (olderIn d chat when) = length S"
    by (simp add: olderIn_rows S_def)
  have "length (drop n S) = min (nat c) (length S)"
    unfolding n_def len by simp
  with window_suffix [OF srt, of n] show ?thesis
    unfolding ctx ms len by blast
qed

lemma contextAfter_window:
  assumes "0 \<le> c"
  shows "sorted (map date (contextAfter d chat when c)) \<and>
         length (contextAfter d chat when c) = min (nat c) (length (newerIn d chat when)) \<and>
         mset (contextAfter d chat when c) \<subseteq># mset (newerIn d chat when) \<and>
         (\<forall>x \<in># mset (newerIn d chat when) - mset (contextAfter d chat when c).
            \<forall>y \<in> set (contextAfter d chat when c). date y \<le> date x)"
proof -
  define S where "S = map rowToMessage (sort_key row_date
      (filter (\<lambda>r. chat_id r = chat \<and> row_date r > when) (rows d)))"
  have ctx: "contextAfter d chat when c = take (nat c) S"
    unfolding S_def using assms by (rule contextAfter_take)
  have srt: "sorted (map date S)"
    unfolding S_def date_rowToMessage by (rule sorted_sort_key)
  have ms: "mset (newerIn d chat when) = mset S"
    by (simp add: newerIn_rows S_def)
  have len: "length (newerIn d chat when) = length S"
    by (simp add: newerIn_rows S_def)
  have "length (take (nat c) S) = min (nat c) (length S)"
    by simp
  with window_prefix [OF srt, of "nat c"] show ?thesis
    unfolding ctx ms len by blast
qed

lemma search_hit_context:
  assumes "fst (search eng f s opts) = Inr hits" and "fst (getDb f s) = Inr d"
    and "h \<in> set hits"
  shows "h = withContext d (o_context opts) (result h)"
proof -
  obtain s1 where g: "getDb f s = (Inr d, s1)"
    using assms(2) by (cases "getDb f s") simp
  have "\<exists>rs. hits = map (withContext d (o_context opts)) rs"
    using assms(1) g
    by (auto simp: search_def ensureIndex_def split: if_splits option.splits prod.splits sum.splits
        intro: exI [of _ "[]"])
  then obtain rs where "hits = map (withContext d (o_context opts)) rs" by blast
  with assms(3) obtain r where "h = withContext d (o_context opts) r" by auto
  then show ?thesis by (simp add: withContext_def)
qed

text \<open>
  C3. For every hit of a search with context parameter \<^verbatim>\<open>c \<ge> 0\<close>: the attached
  before-context is in ascending timestamp order, consists of stored messages of the hit's
  conversation with a timestamp strictly less than the hit's, has \<^verbatim>\<open>c\<close> of them or all
  when there are fewer, and no such message left out is more recent than one included;
  the after-context is the same with the earliest messages strictly after the hit.
\<close>

theorem search_context_window:
  assumes "fst (search eng f s opts) = Inr hits" and "fst (getDb f s) = Inr d"
    and "h \<in> set hits" and "0 \<le> o_context opts"
  shows "sorted (map date (before h)) \<and>
         length (before h) = min (nat (o_context opts))
            (length (olderIn d (chatId (message (result h))) (date (message (result h))))) \<and>
         mset (before h) \<subseteq># mset (olderIn d (chatId (message (result h))) (date (message (result h)))) \<and>
         (\<forall>x \<in># mset (olderIn d (chatId (message (result h))) (date (message (result h)))) - mset (before h).
            \<forall>y \<in> set (before h). date x \<le> date y) \<and>
         sorted (map date (after h)) \<and>
         length (after h) = min (nat (o_context opts))
            (length (newerIn d (chatId (message (result h))) (date (message (result h))))) \<and>
         mset (after h) \<subseteq># mset (newerIn d (chatId (message (result h))) (date (message (result h)))) \<and>
         (\<forall>x \<in># mset (newerIn d (chatId (message (result h))) (date (message (result h)))) - mset (after h).
            \<forall>y \<in> set (after h). date y \<le> date x)"
proof -
  let ?chat = "chatId (message (result h))" and ?when = "date (message (result h))"
  have "h = withContext d (o_context opts) (result h)"
    using assms(1-3) by (rule search_hit_context)
  then have b: "before h = contextBefore d ?chat ?when (o_context opts)"
    and a: "after h = contextAfter d ?chat ?when (o_context opts)"
    by (metis SearchResultWithContext.select_convs(2) withContext_def,
        metis SearchResultWithContext.select_convs(3) withContext_def)
  show ?thesis
    unfolding a b
    using contextBefore_window [OF assms(4), of d ?chat ?when]
      contextAfter_window [OF assms(4), of d ?chat ?when]
    by (elim conjE, intro conjI) assumption+
qed

theorem search_context_window_witness:
  "fst (search ex_engine ex_files_db ex_searcher (ex_options None (Some ''bob'') None 10 2)) = Inr ex_hits \<and>
   fst (getDb ex_files_db ex_searcher) = Inr ex_db \<and>
   ex_hit \<in> set ex_hits \<and>
   0 \<le> o_context (ex_options None (Some ''bob'') None 10 2) \<and>
   sorted (map date (before ex_hit)) \<and>
   sorted (map date (after ex_hit)) \<and>
   map date (before ex_hit) = [10, 20] \<and>
   map date (after ex_hit) = [40, 50]"
proof -
  have 1: "fst (search ex_engine ex_files_db ex_searcher (ex_options None (Some ''bob'') None 10 2)) = Inr ex_hits"
    by (simp add: search_def ensureIndex_def getDb_def hasTextQuery_def truthy_def ex_files_db_def
        ex_searcher_def ex_options_def ex_hits_def)
  have 2: "fst (getDb ex_files_db ex_searcher) = Inr ex_db"
    by (simp add: getDb_def ex_files_db_def ex_searcher_def)
  have 3: "ex_hit \<in> set ex_hits"
    by code_simp
  have 4: "0 \<le> o_context (ex_options None (Some ''bob'') None 10 2)"
    by (simp add: ex_options_def)
  have 5: "map date (before ex_hit) = [10, 20]"
    by code_simp
  have 6: "map date (after ex_hit) = [40, 50]"
    by code_simp
  from search_context_window [OF 1 2 3 4] have "sorted (map date (before ex_hit))"
    and "sorted (map date (after ex_hit))" by blast+
  with 1 2 3 4 5 6 show ?thesis by blast
qed

section \<open>Text search with filters\<close>





section \<open>Contacts\<close>

lemma contact_in_result:
  assumes "c \<in> set (sql_limit limit (order_by_desc lastMessageDate xs))"
  shows "c \<in> set xs"
  using assms by (auto simp: sql_limit_def order_by_desc_def split: if_splits dest: in_set_takeD)

lemma contactOf_rows:
  assumes "n \<noteq> []"
  shows "filter (\<lambda>r. row_sender r = n) (contactRows d) = rowsOfContact d n"
  using assms by (auto simp: contactRows_def rowsOfContact_def intro: filter_cong)

lemma fold_max_Max: "fold max xs (x::int) = Max (set (x # xs))"
  by (rule Max.set_eq_fold [symmetric])

text \<open>
  C9. Every contact \<^verbatim>\<open>getContacts\<close> returns has a non-empty name, and its message count
  and last-activity date are the number and the greatest date of the stored messages of
  that sender that are not self-authored, of which there is at least one. So a sender
  all of whose stored messages are self-authored is no contact.
\<close>

theorem contacts_exclude_self:
  assumes "fst (getContacts f s limit) = Inr cs" and "fst (getDb f s) = Inr d"
  shows "(\<forall>c \<in> set cs.
            name c \<noteq> [] \<and> rowsOfContact d (name c) \<noteq> [] \<and>
            messageCount c = length (rowsOfContact d (name c)) \<and>
            lastMessageDate c = Max (set (map row_date (rowsOfContact d (name c))))) \<and>
         (\<forall>n. (\<forall>r \<in> set (rows d). row_sender r = n \<longrightarrow> is_from_me r \<noteq> 0) \<longrightarrow>
              n \<notin> name ` set cs)"
proof -
  obtain s1 where g: "getDb f s = (Inr d, s1)"
    using assms(2) by (cases "getDb f s") simp
  let ?names = "remdups (map row_sender (contactRows d))"
  have cs: "cs = sql_limit limit (order_by_desc lastMessageDate (map (contactOf (contactRows d)) ?names))"
    using assms(1) g by (simp add: getContacts_def)
  have each: "name c \<noteq> [] \<and> rowsOfContact d (name c) \<noteq> [] \<and>
            messageCount c = length (rowsOfContact d (name c)) \<and>
            lastMessageDate c = Max (set (map row_date (rowsOfContact d (name c))))"
    if "c \<in> set cs" for c
  proof -
    from that have "c \<in> set (sql_limit limit
        (order_by_desc lastMessageDate (map (contactOf (contactRows d)) ?names)))"
      unfolding cs .
    then have "c \<in> set (map (contactOf (contactRows d)) ?names)"
      by (rule contact_in_result)
    then obtain n where n: "n \<in> set (map row_sender (contactRows d))"
      and c: "c = contactOf (contactRows d) n" by auto
    from n obtain r where r: "r \<in> set (rows d)" "row_sender r = n" "n \<noteq> []" "is_from_me r = 0"
      by (auto simp: contactRows_def)
    then have ne: "rowsOfContact d n \<noteq> []"
      by (auto simp: rowsOfContact_def filter_empty_conv)
    have nm: "name c = n" by (simp add: c contactOf_def Let_def)
    have cnt: "messageCount c = length (rowsOfContact d n)"
      using r(3) by (simp add: c contactOf_def Let_def contactOf_rows)
    obtain x xs where xs: "map row_date (rowsOfContact d n) = x # xs"
      using ne by (cases "map row_date (rowsOfContact d n)") auto
    have "lastMessageDate c = fold max xs x"
      using r(3) xs by (simp add: c contactOf_def Let_def contactOf_rows)
    then have "lastMessageDate c = Max (set (map row_date (rowsOfContact d n)))"
      unfolding xs by (simp only: fold_max_Max)
    with nm r(3) ne cnt show ?thesis by simp
  qed
  have absent: "n \<notin> name ` set cs"
    if "\<forall>r \<in> set (rows d). row_sender r = n \<longrightarrow> is_from_me r \<noteq> 0" for n
  proof
    assume "n \<in> name ` set cs"
    then obtain c where "c \<in> set cs" "name c = n" by auto
    with each [of c] have "rowsOfContact d n \<noteq> []" by simp
    then obtain r where "r \<in> set (rows d)" "row_sender r = n" "is_from_me r = 0"
      by (auto simp: rowsOfContact_def filter_empty_conv)
    with that show False by blast
  qed
  from each absent show ?thesis by blast
qed

theorem contacts_exclude_self_witness:
  "fst (getContacts ex_files_db ex_searcher 10) =
     Inr [\<lparr>name = ''Bob'', lastMessageDate = 50, messageCount = 3\<rparr>,
          \<lparr>name = ''carol_d'', lastMessageDate = 20, messageCount = 1\<rparr>] \<and>
   fst (getDb ex_files_db ex_searcher) = Inr ex_db \<and>
   ''Alice'' \<in> row_sender ` set (rows ex_db) \<and>
   ''Alice'' \<notin> name ` set [\<lparr>name = ''Bob'', lastMessageDate = 50, messageCount = 3\<rparr>,
          \<lparr>name = ''carol_d'', lastMessageDate = 20, messageCount = 1\<rparr>]"
proof -
  have 1: "fst (getContacts ex_files_db ex_searcher 10) =
     Inr [\<lparr>name = ''Bob'', lastMessageDate = 50, messageCount = 3\<rparr>,
          \<lparr>name = ''carol_d'', lastMessageDate = 20, messageCount = 1\<rparr>]"
    by code_simp
  have 2: "fst (getDb ex_files_db ex_searcher) = Inr ex_db"
    by (simp add: getDb_def ex_files_db_def ex_searcher_def)
  have 3: "''Alice'' \<in> row_sender ` set (rows ex_db)"
    by (simp add: ex_db_def ex_row_def)
  have 4: "\<forall>r \<in> set (rows ex_db). row_sender r = ''Alice'' \<longrightarrow> is_from_me r \<noteq> 0"
    by (simp add: ex_db_def ex_row_def)
  from contacts_exclude_self [OF 1 2] 4 have
    "''Alice'' \<notin> name ` set [\<lparr>name = ''Bob'', lastMessageDate = 50, messageCount = 3\<rparr>,
          \<lparr>name = ''carol_d'', lastMessageDate = 20, messageCount = 1\<rparr>]"
    by blast
  with 1 2 3 show ?thesis by blast
qed

section \<open>Sender-only search\<close>

text \<open>On lower-case text without the wildcards \<^verbatim>\<open>%\<close> and \<^verbatim>\<open>_\<close>, the pattern
  \<^verbatim>\<open>%text%\<close> of \<^verbatim>\<open>LIKE\<close> is the substring test.\<close>

lemma lower_char_fixed:
  "c \<notin> set ''ABCDEFGHIJKLMNOPQRSTUVWXYZ'' \<Longrightarrow> lower_char c = c"
  by (simp add: lower_char_def)

lemma lower_char_not_upper: "lower_char c \<notin> set ''ABCDEFGHIJKLMNOPQRSTUVWXYZ''"
  by (auto simp: lower_char_def)

lemma lower_char_idem: "lower_char (lower_char c) = lower_char c"
  by (rule lower_char_fixed) (rule lower_char_not_upper)

lemma lower_char_percent: "lower_char c = CHR ''%'' \<longleftrightarrow> c = CHR ''%''"
  by (auto simp: lower_char_def)

lemma lower_char_underscore: "lower_char c = CHR ''_'' \<longleftrightarrow> c = CHR ''_''"
  by (auto simp: lower_char_def)

lemma toLowerCase_idem: "map lower_char (toLowerCase s) = toLowerCase s"
  by (simp add: toLowerCase_def lower_char_idem)

lemma toLowerCase_wildcards:
  "CHR ''%'' \<notin> set s \<Longrightarrow> CHR ''_'' \<notin> set s \<Longrightarrow>
   CHR ''%'' \<notin> set (toLowerCase s) \<and> CHR ''_'' \<notin> set (toLowerCase s)"
proof -
  assume "CHR ''%'' \<notin> set s" and "CHR ''_'' \<notin> set s"
  then have "\<forall>x \<in> set s. lower_char x \<noteq> CHR ''%'' \<and> lower_char x \<noteq> CHR ''_''"
    by (auto simp: lower_char_percent lower_char_underscore)
  then show ?thesis
    by (simp add: toLowerCase_def image_iff) metis
qed

lemma like_percent: "sql_like ''%'' s"
  by (induction s) simp_all

lemma like_literal_prefix:
  assumes "CHR ''%'' \<notin> set p" and "CHR ''_'' \<notin> set p"
  shows "sql_like (p @ ''%'') s \<longleftrightarrow> prefix (map lower_char p) (map lower_char s)"
  using assms
proof (induction p arbitrary: s)
  case Nil
  show ?case using like_percent by simp
next
  case (Cons a p)
  then have a: "a \<noteq> CHR ''%''" "a \<noteq> CHR ''_''"
    and IH: "\<And>t. sql_like (p @ ''%'') t \<longleftrightarrow> prefix (map lower_char p) (map lower_char t)"
    by auto
  show ?case
  proof (cases s)
    case Nil
    with a show ?thesis by simp
  next
    case (Cons c cs)
    with a IH show ?thesis by simp
  qed
qed

lemma like_infix:
  assumes "CHR ''%'' \<notin> set p" and "CHR ''_'' \<notin> set p"
  shows "sql_like (''%'' @ p @ ''%'') s \<longleftrightarrow> sublist (map lower_char p) (map lower_char s)"
proof (induction s)
  case Nil
  have "sql_like (''%'' @ p @ ''%'') [] \<longleftrightarrow> sql_like (p @ ''%'') []" by simp
  also have "\<dots> \<longleftrightarrow> prefix (map lower_char p) (map lower_char [])"
    using assms by (rule like_literal_prefix)
  finally show ?case by simp
next
  case (Cons c cs)
  have "sql_like (''%'' @ p @ ''%'') (c # cs) \<longleftrightarrow>
        sql_like (p @ ''%'') (c # cs) \<or> sql_like (''%'' @ p @ ''%'') cs" by simp
  also have "\<dots> \<longleftrightarrow> prefix (map lower_char p) (map lower_char (c # cs)) \<or>
        sublist (map lower_char p) (map lower_char cs)"
    using like_literal_prefix [OF assms, of "c # cs"] Cons.IH by simp
  finally show ?case by (simp add: sublist_Cons_right)
qed

lemma like_is_includes:
  assumes "CHR ''%'' \<notin> set from'" and "CHR ''_'' \<notin> set from'"
  shows "sql_like (''%'' @ toLowerCase from' @ ''%'') (toLowerCase who) \<longleftrightarrow>
         js_includes (toLowerCase who) (toLowerCase from')"
proof -
  from toLowerCase_wildcards [OF assms]
  have "sql_like (''%'' @ toLowerCase from' @ ''%'') (toLowerCase who) \<longleftrightarrow>
        sublist (map lower_char (toLowerCase from')) (map lower_char (toLowerCase who))"
    by (intro like_infix) simp_all
  then show ?thesis by (simp add: toLowerCase_idem js_includes_def)
qed

text \<open>
  What \<^verbatim>\<open>searchBySender\<close> returns for a limit \<^verbatim>\<open>limit \<ge> 0\<close>: at most \<^verbatim>\<open>limit\<close>
  results, ordered by date descending, each with score 1, not self-authored and not older
  than the date floor when one is given; and when the sender pattern holds neither
  \<^verbatim>\<open>%\<close> nor \<^verbatim>\<open>_\<close>, it is a case-insensitive substring of each result's sender.
\<close>

lemma sender_search_properties:
  assumes "0 \<le> limit"
  shows "length (searchBySender d from' after' limit) \<le> nat limit \<and>
         sorted (rev (map (\<lambda>r. date (message r)) (searchBySender d from' after' limit))) \<and>
         (\<forall>r \<in> set (searchBySender d from' after' limit).
            score r = 1 \<and> \<not> isFromMe (message r) \<and>
            (\<forall>ms. after' = Some ms \<longrightarrow> floorSeconds ms \<le> date (message r)) \<and>
            (CHR ''%'' \<notin> set from' \<and> CHR ''_'' \<notin> set from' \<longrightarrow>
               js_includes (toLowerCase (sender (message r))) (toLowerCase from')))"
proof -
  define t where "t = (case after' of None \<Rightarrow> 0 | Some ms \<Rightarrow> floorSeconds ms)"
  define Q where "Q = filter (\<lambda>r. sql_like (''%'' @ toLowerCase from' @ ''%'') (toLowerCase (row_sender r)) \<and>
                               is_from_me r = 0 \<and> row_date r \<ge> t) (rows d)"
  define S where "S = take (nat limit) (rev (sort_key row_date Q))"
  have res: "searchBySender d from' after' limit =
      map (\<lambda>r. \<lparr>message = rowToMessage r, score = 1, matchedTerms = []\<rparr>) S"
    using assms by (simp add: searchBySender_def Let_def sql_limit_def order_by_desc_def S_def Q_def t_def)
  have len: "length (searchBySender d from' after' limit) \<le> nat limit"
    unfolding res S_def by simp
  have dates: "map (\<lambda>r. date (message r)) (searchBySender d from' after' limit) = map row_date S"
    unfolding res by (simp add: rowToMessage_def o_def)
  have "rev (map row_date S) = map row_date (drop (length Q - nat limit) (sort_key row_date Q))"
    unfolding S_def by (simp add: rev_map rev_take)
  moreover have "sorted (map row_date (drop (length Q - nat limit) (sort_key row_date Q)))"
    by (rule sorted_map_drop) (rule sorted_sort_key)
  ultimately have srt: "sorted (rev (map (\<lambda>r. date (message r)) (searchBySender d from' after' limit)))"
    unfolding dates by simp
  have each: "score r = 1 \<and> \<not> isFromMe (message r) \<and>
            (\<forall>ms. after' = Some ms \<longrightarrow> floorSeconds ms \<le> date (message r)) \<and>
            (CHR ''%'' \<notin> set from' \<and> CHR ''_'' \<notin> set from' \<longrightarrow>
               js_includes (toLowerCase (sender (message r))) (toLowerCase from'))"
    if "r \<in> set (searchBySender d from' after' limit)" for r
  proof -
    from that obtain x where x: "x \<in> set S"
      and r: "r = \<lparr>message = rowToMessage x, score = 1, matchedTerms = []\<rparr>"
      unfolding res by auto
    from x have "x \<in> set Q" unfolding S_def by (auto dest: in_set_takeD)
    then have q: "sql_like (''%'' @ toLowerCase from' @ ''%'') (toLowerCase (row_sender x))"
      "is_from_me x = 0" "row_date x \<ge> t"
      unfolding Q_def by auto
    have "\<forall>ms. after' = Some ms \<longrightarrow> floorSeconds ms \<le> date (message r)"
      using q(3) by (auto simp: t_def r rowToMessage_def)
    moreover have "CHR ''%'' \<notin> set from' \<and> CHR ''_'' \<notin> set from' \<longrightarrow>
               js_includes (toLowerCase (sender (message r))) (toLowerCase from')"
      using q(1) like_is_includes [of from' "row_sender x"] by (simp add: r rowToMessage_def)
    ultimately show ?thesis using q(2) by (simp add: r rowToMessage_def)
  qed
  from len srt each show ?thesis by blast
qed

text \<open>
  C7 at a sender pattern with an underscore. The pattern \<^verbatim>\<open>b_b\<close> is handed to
  \<^verbatim>\<open>LIKE\<close> unescaped, where \<^verbatim>\<open>_\<close> stands for any one character: the search returns
  the message of the sender \<^verbatim>\<open>Bob\<close>, whose name does not contain \<^verbatim>\<open>b_b\<close>.
\<close>

theorem sender_search_like_wildcard:
  "fst (search ex_engine ex_files_db ex_searcher (ex_options None (Some ''b_b'') None 1 0)) =
     Inr [withContext ex_db 0
            \<lparr>message = rowToMessage (ex_row 3 ''50.000000'' ''Bob'' ''C1'' 50 0), score = 1,
             matchedTerms = []\<rparr>] \<and>
   \<not> js_includes (toLowerCase ''Bob'') (toLowerCase ''b_b'')"
  by code_simp


end
